theory Spec2Isabelle
  imports Main
begin

section \<open>Secure download tokens: the record store\<close>

text \<open>
  The utilities in \<^verbatim>\<open>secureDownloads\<close> talk to two tables of the record store,
  \<^verbatim>\<open>secure_download_tokens\<close> and \<^verbatim>\<open>download_attempts\<close>. A table is the list of its
  rows in insertion order. Instants (\<^verbatim>\<open>Date\<close>, \<^verbatim>\<open>timestamptz\<close>) are milliseconds since
  the epoch, SQL integers are \<^typ>\<open>int\<close>, and an optional field is an \<^typ>\<open>'a option\<close>.
\<close>

record SecureDownloadToken =
  tid :: string
  token :: string
  document_id :: string
  recipient_email :: string
  order_id :: string
  expires_at :: int
  max_downloads :: int
  download_count :: int
  is_active :: bool
  created_at :: int
  updated_at :: int

text \<open>
  A row of \<^verbatim>\<open>download_attempts\<close> as \<^verbatim>\<open>logDownloadAttempt\<close> inserts it (the row id is
  filled in by the store and is not part of the inserted object).
\<close>

record DownloadAttempt =
  token_id :: "string option"
  attempted_email :: string
  ip_address :: "string option"
  user_agent :: "string option"
  success :: bool
  failure_reason :: "string option"
  attempted_at :: int

record store =
  tokens :: "SecureDownloadToken list"
  attempts :: "DownloadAttempt list"

text \<open>
  What one awaited call of the store client does: it succeeds, it resolves to an object
  with \<^verbatim>\<open>error\<close> set, or the awaited promise rejects (an exception at the \<^verbatim>\<open>await\<close>).
  The client is an external collaborator, so the outcome of each call is a parameter.
\<close>

datatype outcome = Succeeds | ReturnsError | Throws

text \<open>
  The surroundings of one \<^verbatim>\<open>verifyDownloadToken\<close> call: the outcomes of its store calls
  (the select, the audit insert issued from the \<^verbatim>\<open>try\<close> block, the update, and the audit
  insert issued from the \<^verbatim>\<open>catch\<close> block) and the runtime it executes on.
\<close>

text \<open>
  The builtins of the JavaScript runtime that the code calls. Their results are fixed by
  the language standard and the machine's time zone, not by this code, so they are taken
  as they come: \<^verbatim>\<open>String.prototype.toLowerCase\<close> (the Unicode case mapping),
  \<^verbatim>\<open>encodeURIComponent\<close> (\<^const>\<open>None\<close> when it throws a \<^verbatim>\<open>URIError\<close>), and
  \<open>addHours now h\<close>, the instant a \<^verbatim>\<open>Date\<close> of \<open>now\<close> holds after
  \<^verbatim>\<open>d.setHours(d.getHours() + h)\<close> on the local wall clock (\<^const>\<open>None\<close> when the result is
  an invalid date).
\<close>

record runtime =
  toLowerCase :: "string \<Rightarrow> string"
  encodeURIComponent :: "string \<Rightarrow> string option"
  addHours :: "int \<Rightarrow> int \<Rightarrow> int option"

record env =
  sel_out :: outcome
  ins_try :: outcome
  upd_out :: outcome
  ins_catch :: outcome
  rt :: runtime

subsection \<open>logDownloadAttempt\<close>

text \<open>
  The insert sits in a \<^verbatim>\<open>try\<close> whose \<^verbatim>\<open>catch\<close> only writes to the console, and the
  \<^verbatim>\<open>error\<close> field of the reply is never read: whatever the insert does, the function
  returns normally, and a row is appended only when the insert succeeds.
\<close>

definition logDownloadAttempt ::
  "runtime \<Rightarrow> outcome \<Rightarrow> string option \<Rightarrow> string \<Rightarrow> bool \<Rightarrow> string option \<Rightarrow>
     string option \<Rightarrow> string option \<Rightarrow> int \<Rightarrow> store \<Rightarrow> store" where
  "logDownloadAttempt r ins tokenId attemptedEmail succ failureReason ipAddress userAgent now s =
     (case ins of
        Succeeds \<Rightarrow>
          s\<lparr>attempts := attempts s @
             [\<lparr>token_id = tokenId, attempted_email = toLowerCase r attemptedEmail,
               ip_address = ipAddress, user_agent = userAgent, success = succ,
               failure_reason = failureReason, attempted_at = now\<rparr>]\<rparr>
      | ReturnsError \<Rightarrow> s
      | Throws \<Rightarrow> s)"

subsection \<open>verifyDownloadToken\<close>

text \<open>The object \<^verbatim>\<open>verifyDownloadToken\<close> resolves to. The joined document is the one the
  token row names, so it is carried as that row's \<^verbatim>\<open>document_id\<close>.\<close>

record verify_result =
  valid :: bool
  document :: "string option"
  reason :: "string option"
  tokenData :: "SecureDownloadToken option"

text \<open>The reply of \<^verbatim>\<open>.eq('token', token).eq('is_active', true).single()\<close>: data when
  exactly one row matches, an error for no row or several rows.\<close>

datatype select_reply = SelData SecureDownloadToken | SelError | SelThrows

definition select_single :: "outcome \<Rightarrow> string \<Rightarrow> store \<Rightarrow> select_reply" where
  "select_single out t s =
     (case out of
        Throws \<Rightarrow> SelThrows
      | ReturnsError \<Rightarrow> SelError
      | Succeeds \<Rightarrow>
          (case filter (\<lambda>r. token r = t \<and> is_active r) (tokens s) of
             [r] \<Rightarrow> SelData r
           | _ \<Rightarrow> SelError))"

text \<open>\<^verbatim>\<open>.update(...).eq('id', i)\<close> when it takes effect.\<close>

definition update_tokens ::
  "string \<Rightarrow> (SecureDownloadToken \<Rightarrow> SecureDownloadToken) \<Rightarrow> store \<Rightarrow> store" where
  "update_tokens i f s = s\<lparr>tokens := map (\<lambda>r. if tid r = i then f r else r) (tokens s)\<rparr>"

text \<open>
  An awaited update whose reply is not inspected: \<^const>\<open>None\<close> when the await throws,
  otherwise the store, changed only if the update succeeded.
\<close>

definition await_update ::
  "outcome \<Rightarrow> string \<Rightarrow> (SecureDownloadToken \<Rightarrow> SecureDownloadToken) \<Rightarrow> store \<Rightarrow> store option" where
  "await_update out i f s =
     (case out of
        Throws \<Rightarrow> None
      | ReturnsError \<Rightarrow> Some s
      | Succeeds \<Rightarrow> Some (update_tokens i f s))"

text \<open>
  The body of the \<^verbatim>\<open>try\<close> block after the select has resolved. The result is
  \<^const>\<open>None\<close> when a statement throws; the store returned with it holds what had
  been written before the throw.
\<close>

definition verify_after_select ::
  "env \<Rightarrow> select_reply \<Rightarrow> string \<Rightarrow> string option \<Rightarrow> string option \<Rightarrow> int \<Rightarrow> store \<Rightarrow>
     verify_result option \<times> store" where
  "verify_after_select e rep attemptedEmail ipAddress userAgent now s =
     (case rep of
        SelThrows \<Rightarrow> (None, s)
      | SelError \<Rightarrow>
          (Some \<lparr>valid = False, document = None, reason = Some ''Invalid or expired token'',
                 tokenData = None\<rparr>,
           logDownloadAttempt (rt e) (ins_try e) None attemptedEmail False
             (Some ''Invalid or expired token'') ipAddress userAgent now s)
      | SelData td \<Rightarrow>
          if now > expires_at td then
            (let s1 = logDownloadAttempt (rt e) (ins_try e) (Some (tid td)) attemptedEmail False
                        (Some ''Token expired'') ipAddress userAgent now s
             in case await_update (upd_out e) (tid td)
                       (\<lambda>r. r\<lparr>is_active := False, updated_at := now\<rparr>) s1 of
                  None \<Rightarrow> (None, s1)
                | Some s2 \<Rightarrow>
                    (Some \<lparr>valid = False, document = None,
                           reason = Some ''Download link has expired'', tokenData = None\<rparr>, s2))
          else if toLowerCase (rt e) (recipient_email td) \<noteq>
                  toLowerCase (rt e) attemptedEmail then
            (Some \<lparr>valid = False, document = None,
                   reason = Some ''This download link is not authorized for your email address'',
                   tokenData = None\<rparr>,
             logDownloadAttempt (rt e) (ins_try e) (Some (tid td)) attemptedEmail False
               (Some ''Email mismatch'') ipAddress userAgent now s)
          else if download_count td \<ge> max_downloads td then
            (Some \<lparr>valid = False, document = None,
                   reason = Some ''Download limit exceeded for this link'', tokenData = None\<rparr>,
             logDownloadAttempt (rt e) (ins_try e) (Some (tid td)) attemptedEmail False
               (Some ''Download limit exceeded'') ipAddress userAgent now s)
          else
            (let s1 = logDownloadAttempt (rt e) (ins_try e) (Some (tid td)) attemptedEmail True
                        None ipAddress userAgent now s
             in case await_update (upd_out e) (tid td)
                       (\<lambda>r. r\<lparr>download_count := download_count td + 1, updated_at := now\<rparr>)
                       s1 of
                  None \<Rightarrow> (None, s1)
                | Some s2 \<Rightarrow>
                    (Some \<lparr>valid = True, document = Some (document_id td), reason = None,
                           tokenData = Some td\<rparr>, s2)))"

text \<open>The \<^verbatim>\<open>catch\<close> block: a thrown exception is logged as a system error with a null
  token id and reported as a denial.\<close>

definition verify_catch ::
  "env \<Rightarrow> string \<Rightarrow> string option \<Rightarrow> string option \<Rightarrow> int \<Rightarrow>
     verify_result option \<times> store \<Rightarrow> verify_result \<times> store" where
  "verify_catch e attemptedEmail ipAddress userAgent now p =
     (case p of
        (Some r, s') \<Rightarrow> (r, s')
      | (None, s') \<Rightarrow>
          (\<lparr>valid = False, document = None, reason = Some ''System error occurred'',
            tokenData = None\<rparr>,
           logDownloadAttempt (rt e) (ins_catch e) None attemptedEmail False (Some ''System error'')
             ipAddress userAgent now s'))"

text \<open>Everything \<^verbatim>\<open>verifyDownloadToken\<close> does once its select has resolved.\<close>

definition verify_finish ::
  "env \<Rightarrow> select_reply \<Rightarrow> string \<Rightarrow> string option \<Rightarrow> string option \<Rightarrow> int \<Rightarrow> store \<Rightarrow>
     verify_result \<times> store" where
  "verify_finish e rep attemptedEmail ipAddress userAgent now s =
     verify_catch e attemptedEmail ipAddress userAgent now
       (verify_after_select e rep attemptedEmail ipAddress userAgent now s)"

definition verifyDownloadToken ::
  "env \<Rightarrow> string \<Rightarrow> string \<Rightarrow> string option \<Rightarrow> string option \<Rightarrow> int \<Rightarrow> store \<Rightarrow>
     verify_result \<times> store" where
  "verifyDownloadToken e t attemptedEmail ipAddress userAgent now s =
     verify_finish e (select_single (sel_out e) t s) attemptedEmail ipAddress userAgent now s"

subsection \<open>Two concurrent verifications\<close>

text \<open>
  Every \<^verbatim>\<open>await\<close> is a point where another call can run. The schedule below lets two
  calls on the same token both complete their select before either goes on: call A
  reads, call B reads, A finishes, B finishes on the store A left, with the row it
  read earlier.
\<close>

definition verify_interleaved ::
  "env \<Rightarrow> env \<Rightarrow> string \<Rightarrow> string \<Rightarrow> string \<Rightarrow> int \<Rightarrow> store \<Rightarrow>
     (verify_result \<times> verify_result) \<times> store" where
  "verify_interleaved eA eB t emailA emailB now s =
     (let repA = select_single (sel_out eA) t s;
          repB = select_single (sel_out eB) t s;
          (rA, sA) = verify_finish eA repA emailA None None now s;
          (rB, sB) = verify_finish eB repB emailB None None now sA
      in ((rA, rB), sB))"

subsection \<open>revokeDownloadToken and cleanupExpiredTokens\<close>

definition revokeDownloadToken :: "outcome \<Rightarrow> string \<Rightarrow> int \<Rightarrow> store \<Rightarrow> bool \<times> store" where
  "revokeDownloadToken out tokenId now s =
     (case out of
        Succeeds \<Rightarrow>
          (True, update_tokens tokenId (\<lambda>r. r\<lparr>is_active := False, updated_at := now\<rparr>) s)
      | ReturnsError \<Rightarrow> (False, s)
      | Throws \<Rightarrow> (False, s))"

text \<open>
  Modelled from the spec: the body of the stored procedure \<^verbatim>\<open>cleanup_expired_tokens\<close>,
  which \<^verbatim>\<open>cleanupExpiredTokens\<close> calls and which is not among the sources. The spec's
  sweep sets \<^verbatim>\<open>isActive=false\<close> where \<^verbatim>\<open>expiresAt < now AND isActive = true\<close>; it is the
  statement \<^verbatim>\<open>cleanup_expired_sessions\<close> runs on each session table.
\<close>

definition cleanup_expired_tokens :: "int \<Rightarrow> store \<Rightarrow> store" where
  "cleanup_expired_tokens now s =
     s\<lparr>tokens := map (\<lambda>r. if expires_at r < now \<and> is_active r
                            then r\<lparr>is_active := False, updated_at := now\<rparr> else r) (tokens s)\<rparr>"

text \<open>\<^verbatim>\<open>cleanupExpiredTokens\<close>: the procedure call, then a count of the inactive rows
  whose expiry lies before now (0 when a call fails).\<close>

definition cleanupExpiredTokens :: "outcome \<Rightarrow> outcome \<Rightarrow> int \<Rightarrow> store \<Rightarrow> nat \<times> store" where
  "cleanupExpiredTokens rpc sel now s =
     (case rpc of
        Throws \<Rightarrow> (0, s)
      | ReturnsError \<Rightarrow> (0, s)
      | Succeeds \<Rightarrow>
          (let s' = cleanup_expired_tokens now s
           in case sel of
                Succeeds \<Rightarrow>
                  (length (filter (\<lambda>r. \<not> is_active r \<and> expires_at r < now) (tokens s')), s')
              | ReturnsError \<Rightarrow> (0, s')
              | Throws \<Rightarrow> (0, s')))"

subsection \<open>generateSecureDownloadTokens\<close>

record doc =
  doc_id :: string
  doc_name :: string
  doc_url :: string

record SecureDownloadConfig =
  expirationHours :: int
  maxDownloads :: int
  requireEmailVerification :: bool

definition DEFAULT_CONFIG :: SecureDownloadConfig where
  "DEFAULT_CONFIG = \<lparr>expirationHours = 72, maxDownloads = 5, requireEmailVerification = True\<rparr>"

text \<open>A key of a \<^verbatim>\<open>Partial<...>\<close> object: it is absent, it is present with the value
  \<^verbatim>\<open>undefined\<close>, or it is present with a value.\<close>

datatype 'a partial_key = Absent | Undefined | Given 'a

record PartialConfig =
  p_expirationHours :: "int partial_key"
  p_maxDownloads :: "int partial_key"
  p_requireEmailVerification :: "bool partial_key"

text \<open>
  One key of \<^verbatim>\<open>{ ...DEFAULT_CONFIG, ...config }\<close>: a key that is present in \<^verbatim>\<open>config\<close>
  overrides the default, also when its value is \<^verbatim>\<open>undefined\<close> (\<^const>\<open>None\<close> in the
  result).
\<close>

definition spread :: "'a \<Rightarrow> 'a partial_key \<Rightarrow> 'a option" where
  "spread dflt p = (case p of Absent \<Rightarrow> Some dflt | Undefined \<Rightarrow> None | Given v \<Rightarrow> Some v)"

record MergedConfig =
  m_expirationHours :: "int option"
  m_maxDownloads :: "int option"
  m_requireEmailVerification :: "bool option"

definition finalConfig :: "PartialConfig \<Rightarrow> MergedConfig" where
  "finalConfig c =
     \<lparr>m_expirationHours = spread (expirationHours DEFAULT_CONFIG) (p_expirationHours c),
      m_maxDownloads = spread (maxDownloads DEFAULT_CONFIG) (p_maxDownloads c),
      m_requireEmailVerification =
        spread (requireEmailVerification DEFAULT_CONFIG) (p_requireEmailVerification c)\<rparr>"

text \<open>
  \<^verbatim>\<open>expiresAt\<close> after \<^verbatim>\<open>setHours(getHours() + finalConfig.expirationHours)\<close>: the runtime's
  wall-clock addition; adding \<^verbatim>\<open>undefined\<close> gives an invalid date.
\<close>

definition expiry :: "runtime \<Rightarrow> MergedConfig \<Rightarrow> int \<Rightarrow> int option" where
  "expiry r cfg now =
     (case m_expirationHours cfg of None \<Rightarrow> None | Some h \<Rightarrow> addHours r now h)"

text \<open>The reply of \<^verbatim>\<open>supabase.rpc('generate_secure_token')\<close>.\<close>

datatype rpc_reply = RpcData string | RpcError | RpcThrows

text \<open>
  What surrounds one call of the generator: for the loop's \<open>i\<close>-th iteration the reply of
  the token procedure, the outcome of the insert and the id the store gives the new row;
  \<^verbatim>\<open>window.location.origin\<close>; what the store does with a row whose \<^verbatim>\<open>max_downloads\<close>
  is left out of the insert (it fills in the column's default, or it refuses the row:
  \<^const>\<open>None\<close>); and the runtime.
\<close>

record genv =
  rpc_out :: "nat \<Rightarrow> rpc_reply"
  store_out :: "nat \<Rightarrow> outcome"
  new_id :: "nat \<Rightarrow> string"
  baseUrl :: string
  omitted_max_downloads :: "int option"
  grt :: runtime

text \<open>
  Modelled from the spec: the table definition of \<^verbatim>\<open>secure_download_tokens\<close> is not
  among the sources; the spec gives each grant table a synthetic key and a unique index
  on its token field. An insert that would repeat a token or an id is refused, and an
  insert never touches a row that is already there.
\<close>

definition insert_token :: "outcome \<Rightarrow> SecureDownloadToken \<Rightarrow> store \<Rightarrow> store option" where
  "insert_token out row s =
     (case out of
        Throws \<Rightarrow> None
      | ReturnsError \<Rightarrow> None
      | Succeeds \<Rightarrow>
          if list_ex (\<lambda>r. token r = token row \<or> tid r = tid row) (tokens s) then None
          else Some (s\<lparr>tokens := tokens s @ [row]\<rparr>))"

record secure_url =
  documentId :: string
  documentName :: string
  secureUrl :: string
  expiresAt :: int

text \<open>
  One iteration of the loop over the documents, in the order the statements run: the
  token procedure; the object to insert, whose \<^verbatim>\<open>expiresAt.toISOString()\<close> throws on an
  invalid date and whose \<^verbatim>\<open>max_downloads\<close> is left out when the merged value is
  \<^verbatim>\<open>undefined\<close>; the insert; the URL, whose \<^verbatim>\<open>encodeURIComponent\<close> can throw; the push.
  A token error, a store error and a thrown exception all end the iteration
  (\<^verbatim>\<open>continue\<close>, or the \<^verbatim>\<open>catch\<close> that only writes to the console), and the loop goes on to
  the next document. A row that was inserted before a throw stays in the table.
\<close>

definition generate_iteration ::
  "genv \<Rightarrow> string \<Rightarrow> string \<Rightarrow> MergedConfig \<Rightarrow> int option \<Rightarrow> int \<Rightarrow> nat \<Rightarrow> doc \<Rightarrow>
     secure_url list \<times> store \<Rightarrow> secure_url list \<times> store" where
  "generate_iteration g recipientEmail orderId cfg expAt now i d acc =
     (case rpc_out g i of
        RpcThrows \<Rightarrow> acc
      | RpcError \<Rightarrow> acc
      | RpcData tok \<Rightarrow>
          (case expAt of
             None \<Rightarrow> acc
           | Some ex \<Rightarrow>
               (case (case m_maxDownloads cfg of
                        Some m \<Rightarrow> Some m | None \<Rightarrow> omitted_max_downloads g) of
                  None \<Rightarrow> acc
                | Some maxd \<Rightarrow>
                    (case insert_token (store_out g i)
                            \<lparr>tid = new_id g i, token = tok, document_id = doc_id d,
                              recipient_email = toLowerCase (grt g) recipientEmail,
                              order_id = orderId, expires_at = ex, max_downloads = maxd,
                              download_count = 0, is_active = True, created_at = now,
                              updated_at = now\<rparr> (snd acc) of
                       None \<Rightarrow> acc
                     | Some s' \<Rightarrow>
                         (case encodeURIComponent (grt g) recipientEmail of
                            None \<Rightarrow> (fst acc, s')
                          | Some enc \<Rightarrow>
                              (fst acc @
                                 [\<lparr>documentId = doc_id d, documentName = doc_name d,
                                   secureUrl = baseUrl g @ ''/secure-download/'' @ tok @
                                               ''?email='' @ enc,
                                   expiresAt = ex\<rparr>], s'))))))"

fun generate_loop ::
  "genv \<Rightarrow> string \<Rightarrow> string \<Rightarrow> MergedConfig \<Rightarrow> int option \<Rightarrow> int \<Rightarrow> nat \<Rightarrow> doc list \<Rightarrow>
     secure_url list \<times> store \<Rightarrow> secure_url list \<times> store" where
  "generate_loop g recipientEmail orderId cfg expAt now i [] acc = acc"
| "generate_loop g recipientEmail orderId cfg expAt now i (d # ds) acc =
     generate_loop g recipientEmail orderId cfg expAt now (Suc i) ds
       (generate_iteration g recipientEmail orderId cfg expAt now i d acc)"

definition generateSecureDownloadTokens ::
  "genv \<Rightarrow> doc list \<Rightarrow> string \<Rightarrow> string \<Rightarrow> PartialConfig \<Rightarrow> int \<Rightarrow> store \<Rightarrow>
     secure_url list \<times> store" where
  "generateSecureDownloadTokens g documents recipientEmail orderId config now s =
     (let cfg = finalConfig config;
          expAt = expiry (grt g) cfg now
      in generate_loop g recipientEmail orderId cfg expAt now 0 documents ([], s))"

subsection \<open>Histories of operations on the token table\<close>

datatype op =
    Verify env string string "string option" "string option" int
  | Revoke outcome string int
  | Cleanup outcome outcome int
  | Generate genv "doc list" string string PartialConfig int

fun run_op :: "op \<Rightarrow> store \<Rightarrow> store" where
  "run_op (Verify e t em ip ua now) s = snd (verifyDownloadToken e t em ip ua now s)"
| "run_op (Revoke out i now) s = snd (revokeDownloadToken out i now s)"
| "run_op (Cleanup rpc sel now) s = snd (cleanupExpiredTokens rpc sel now s)"
| "run_op (Generate g ds em ord cfg now) s =
     snd (generateSecureDownloadTokens g ds em ord cfg now s)"

definition run_ops :: "op list \<Rightarrow> store \<Rightarrow> store" where
  "run_ops ops s = fold run_op ops s"

fun is_verify :: "op \<Rightarrow> bool" where
  "is_verify (Verify e t em ip ua now) = True"
| "is_verify _ = False"

section \<open>The session tables and their maintenance procedures\<close>

text \<open>
  The migration creates five session tables. They share the columns \<^verbatim>\<open>id\<close>, the
  recipient's email, \<^verbatim>\<open>expires_at\<close> and \<^verbatim>\<open>is_active\<close>; all but the QR table also have
  \<^verbatim>\<open>updated_at\<close>. The shared columns are a base record that each table extends.
\<close>

record session_base =
  s_id :: string
  s_email :: string
  s_expires_at :: int
  s_is_active :: bool

record session_stamped = session_base +
  s_updated_at :: int

record secure_download_session = session_stamped +
  s_token :: string
  verification_code :: string
  s_max_downloads :: int
  s_download_count :: int
  is_verified :: bool
  device_fingerprint :: "string option"
  download_window_start :: int
  download_window_end :: int

record blockchain_download_session = session_stamped +
  blockchain_tx_id :: string
  proof_of_delivery :: string
  document_hashes :: "string list"

record progressive_download_session = session_stamped +
  p_token :: string

record customer_portal = session_stamped +
  access_token :: string
  customer_name :: string
  temporary_password :: string
  password_changed :: bool
  last_login :: "int option"

record qr_download_session = session_base +
  verification_token :: string
  qr_documents :: string
  is_scanned :: bool
  scanned_at :: "int option"
  device_info :: "string option"

record progressive_unlock =
  u_id :: string
  u_session_id :: string
  review_stage :: string
  unlock_time :: int
  u_documents :: string
  is_unlocked :: bool
  unlocked_at :: "int option"

record sessions_db =
  secure_download_sessions :: "secure_download_session list"
  blockchain_download_sessions :: "blockchain_download_session list"
  progressive_download_sessions :: "progressive_download_session list"
  progressive_unlocks :: "progressive_unlock list"
  customer_portals :: "customer_portal list"
  qr_download_sessions :: "qr_download_session list"

text \<open>
  \<^verbatim>\<open>UPDATE progressive_unlocks SET is_unlocked = true, unlocked_at = now()
  WHERE unlock_time <= now() AND is_unlocked = false\<close>
\<close>

definition unlock_progressive_stages :: "int \<Rightarrow> sessions_db \<Rightarrow> sessions_db" where
  "unlock_progressive_stages now db =
     db\<lparr>progressive_unlocks :=
          map (\<lambda>u. if unlock_time u \<le> now \<and> is_unlocked u = False
                    then u\<lparr>is_unlocked := True, unlocked_at := Some now\<rparr> else u)
            (progressive_unlocks db)\<rparr>"

text \<open>
  \<^verbatim>\<open>UPDATE t SET is_active = false, updated_at = now()
  WHERE expires_at < now() AND is_active = true\<close>, and the same statement without
  \<^verbatim>\<open>updated_at\<close> for the QR table.
\<close>

definition expire_stamped ::
  "int \<Rightarrow> 'a session_stamped_scheme list \<Rightarrow> 'a session_stamped_scheme list" where
  "expire_stamped now rows =
     map (\<lambda>r. if s_expires_at r < now \<and> s_is_active r = True
               then r\<lparr>s_is_active := False, s_updated_at := now\<rparr> else r) rows"

definition expire_unstamped ::
  "int \<Rightarrow> 'a session_base_scheme list \<Rightarrow> 'a session_base_scheme list" where
  "expire_unstamped now rows =
     map (\<lambda>r. if s_expires_at r < now \<and> s_is_active r = True
               then r\<lparr>s_is_active := False\<rparr> else r) rows"

text \<open>The five statements of \<^verbatim>\<open>cleanup_expired_sessions\<close> run in one transaction, so
  \<^verbatim>\<open>now()\<close> is one instant for all of them.\<close>

definition cleanup_expired_sessions :: "int \<Rightarrow> sessions_db \<Rightarrow> sessions_db" where
  "cleanup_expired_sessions now db =
     db\<lparr>secure_download_sessions := expire_stamped now (secure_download_sessions db),
        blockchain_download_sessions := expire_stamped now (blockchain_download_sessions db),
        progressive_download_sessions := expire_stamped now (progressive_download_sessions db),
        customer_portals := expire_stamped now (customer_portals db),
        qr_download_sessions := expire_unstamped now (qr_download_sessions db)\<rparr>"

text \<open>A run of sweeps, one per instant of the list.\<close>

definition unlock_sweeps :: "int list \<Rightarrow> sessions_db \<Rightarrow> sessions_db" where
  "unlock_sweeps nows db = fold unlock_progressive_stages nows db"

section \<open>The multi-factor verification page\<close>

text \<open>
  What the page shows in its error state: \<^verbatim>\<open>'Invalid or expired session token'\<close>,
  \<^verbatim>\<open>'This download session has expired'\<close>, \<^verbatim>\<open>'Downloads are only allowed between
  ${start}:00 and ${end}:00'\<close>, \<^verbatim>\<open>'Failed to verify session'\<close> and \<^verbatim>\<open>'Email address does
  not match the authorized recipient'\<close>.
\<close>

datatype page_message =
    InvalidSessionToken
  | SessionHasExpired
  | OnlyAllowedBetween int int
  | FailedToVerifySession
  | EmailDoesNotMatch

text \<open>A row of \<^verbatim>\<open>session_documents\<close>.\<close>

record session_document =
  sd_id :: string
  sd_session_id :: string
  sd_document_id :: string
  document_name :: string
  document_url :: string
  document_category :: string
  sd_review_stage :: string
  sd_download_count :: int

text \<open>The component state the two handlers read and write.\<close>

record page =
  step :: nat
  email :: string
  page_error :: "page_message option"
  sessionData :: "secure_download_session option"
  documents :: "session_document list"

definition initial_page :: page where
  "initial_page =
     \<lparr>step = 1, email = [], page_error = None, sessionData = None, documents = []\<rparr>"

text \<open>
  \<^verbatim>\<open>checkSession\<close>, run when the page mounts, with the outcomes of its two selects: the
  session select, the expiry check and the download-window check, each ending the
  function with an error; then the session is stored in the state and the session's
  documents are selected. An exception of either select lands in the \<^verbatim>\<open>catch\<close> and
  sets the error; an error reply of the second select only leaves the document list as
  it was. The hour is \<^verbatim>\<open>new Date().getHours()\<close>.
\<close>

definition checkSession ::
  "outcome \<Rightarrow> outcome \<Rightarrow> secure_download_session list \<Rightarrow> session_document list \<Rightarrow> string \<Rightarrow>
     int \<Rightarrow> int \<Rightarrow> page \<Rightarrow> page" where
  "checkSession out docs_out sessions session_docs t now currentHour p =
     (case out of
        Throws \<Rightarrow> p\<lparr>page_error := Some FailedToVerifySession\<rparr>
      | ReturnsError \<Rightarrow> p\<lparr>page_error := Some InvalidSessionToken\<rparr>
      | Succeeds \<Rightarrow>
          (case filter (\<lambda>r. s_token r = t \<and> s_is_active r = True) sessions of
             [session] \<Rightarrow>
               if s_expires_at session < now then p\<lparr>page_error := Some SessionHasExpired\<rparr>
               else if currentHour < download_window_start session \<or>
                       currentHour > download_window_end session
               then p\<lparr>page_error := Some (OnlyAllowedBetween (download_window_start session)
                                             (download_window_end session))\<rparr>
               else
                 (case docs_out of
                    Throws \<Rightarrow>
                      p\<lparr>sessionData := Some session, page_error := Some FailedToVerifySession\<rparr>
                  | ReturnsError \<Rightarrow> p\<lparr>sessionData := Some session\<rparr>
                  | Succeeds \<Rightarrow>
                      p\<lparr>sessionData := Some session,
                        documents :=
                          filter (\<lambda>d. sd_session_id d = s_id session) session_docs\<rparr>)
           | _ \<Rightarrow> p\<lparr>page_error := Some InvalidSessionToken\<rparr>))"

definition setEmail :: "string \<Rightarrow> page \<Rightarrow> page" where
  "setEmail em p = p\<lparr>email := em\<rparr>"

definition handleEmailVerification :: "runtime \<Rightarrow> page \<Rightarrow> page" where
  "handleEmailVerification r p =
     (case sessionData p of
        None \<Rightarrow> p
      | Some sd \<Rightarrow>
          if email p = [] then p
          else if toLowerCase r (email p) \<noteq> toLowerCase r (s_email sd)
          then p\<lparr>page_error := Some EmailDoesNotMatch\<rparr>
          else p\<lparr>step := 2, page_error := None\<rparr>)"

text \<open>
  A visit of the page: it mounts and checks the session; the page in its error state
  renders the error alone, otherwise it renders the form, and the visitor types an
  identity and submits it.
\<close>

definition mfa_visit ::
  "runtime \<Rightarrow> outcome \<Rightarrow> outcome \<Rightarrow> secure_download_session list \<Rightarrow> session_document list \<Rightarrow>
     string \<Rightarrow> string \<Rightarrow> int \<Rightarrow> int \<Rightarrow> page" where
  "mfa_visit r out docs_out sessions session_docs t em now currentHour =
     (let p = checkSession out docs_out sessions session_docs t now currentHour initial_page
      in case page_error p of
           Some m \<Rightarrow> p
         | None \<Rightarrow> handleEmailVerification r (setEmail em p))"

section \<open>The order of checks, as the specification words it\<close>

text \<open>The tie-break rule: of a list of checks in their fixed order, the first failing
  one gives the reason; no reason when none fails.\<close>

fun first_failing :: "(bool \<times> 'r) list \<Rightarrow> 'r option" where
  "first_failing [] = None"
| "first_failing ((failed, r) # cs) = (if failed then Some r else first_failing cs)"

text \<open>Resolution, expiry, identity, quota: the order on the token table.\<close>

definition spec_order_reason ::
  "runtime \<Rightarrow> string \<Rightarrow> string \<Rightarrow> int \<Rightarrow> store \<Rightarrow> string option" where
  "spec_order_reason r t em now s =
     (case filter (\<lambda>r. token r = t \<and> is_active r) (tokens s) of
        [td] \<Rightarrow>
          first_failing
            [(expires_at td < now, ''Download link has expired''),
             (toLowerCase r (recipient_email td) \<noteq> toLowerCase r em,
              ''This download link is not authorized for your email address''),
             (download_count td \<ge> max_downloads td, ''Download limit exceeded for this link'')]
      | _ \<Rightarrow> Some ''Invalid or expired token'')"

text \<open>Resolution, expiry, identity, download window: the specification's order for a
  multi-factor session.\<close>

definition spec_order_mfa ::
  "runtime \<Rightarrow> secure_download_session list \<Rightarrow> string \<Rightarrow> string \<Rightarrow> int \<Rightarrow> int \<Rightarrow>
     page_message option" where
  "spec_order_mfa r sessions t em now currentHour =
     (case filter (\<lambda>r. s_token r = t \<and> s_is_active r = True) sessions of
        [session] \<Rightarrow>
          first_failing
            [(s_expires_at session < now, SessionHasExpired),
             (toLowerCase r em \<noteq> toLowerCase r (s_email session), EmailDoesNotMatch),
             (currentHour < download_window_start session \<or>
              currentHour > download_window_end session,
              OnlyAllowedBetween (download_window_start session) (download_window_end session))]
      | _ \<Rightarrow> Some InvalidSessionToken)"

text \<open>Resolution, expiry, download window, identity: the order with the window gate
  ahead of the identity match.\<close>

definition window_first_mfa ::
  "runtime \<Rightarrow> secure_download_session list \<Rightarrow> string \<Rightarrow> string \<Rightarrow> int \<Rightarrow> int \<Rightarrow>
     page_message option" where
  "window_first_mfa r sessions t em now currentHour =
     (case filter (\<lambda>r. s_token r = t \<and> s_is_active r = True) sessions of
        [session] \<Rightarrow>
          first_failing
            [(s_expires_at session < now, SessionHasExpired),
             (currentHour < download_window_start session \<or>
              currentHour > download_window_end session,
              OnlyAllowedBetween (download_window_start session) (download_window_end session)),
             (toLowerCase r em \<noteq> toLowerCase r (s_email session), EmailDoesNotMatch)]
      | _ \<Rightarrow> Some InvalidSessionToken)"

section \<open>Predicates on the token table\<close>

text \<open>Token \<open>t\<close> is known to the table and no row carrying it is active.\<close>

definition dead_token :: "string \<Rightarrow> store \<Rightarrow> bool" where
  "dead_token t s =
     (list_ex (\<lambda>r. token r = t) (tokens s) \<and>
      list_all (\<lambda>r. token r = t \<longrightarrow> \<not> is_active r) (tokens s))"

text \<open>The grant with id \<open>i\<close> exists and is inactive.\<close>

definition inactive_grant :: "string \<Rightarrow> store \<Rightarrow> bool" where
  "inactive_grant i s =
     (list_ex (\<lambda>r. tid r = i) (tokens s) \<and>
      list_all (\<lambda>r. tid r = i \<longrightarrow> \<not> is_active r) (tokens s))"

text \<open>No grant has used more than its quota.\<close>

definition quota_inv :: "store \<Rightarrow> bool" where
  "quota_inv s = list_all (\<lambda>r. download_count r \<le> max_downloads r) (tokens s)"

text \<open>The reason \<^verbatim>\<open>verifyDownloadToken\<close> returns next to each failure reason it writes
  to the audit log.\<close>

definition reported_for :: "string \<Rightarrow> string" where
  "reported_for fr =
     (if fr = ''Token expired'' then ''Download link has expired''
      else if fr = ''Email mismatch''
           then ''This download link is not authorized for your email address''
      else if fr = ''Download limit exceeded'' then ''Download limit exceeded for this link''
      else if fr = ''System error'' then ''System error occurred''
      else fr)"

subsection \<open>Sample data\<close>

text \<open>
  A runtime for the examples. On the strings the examples use (ASCII letters, digits,
  \<open>@\<close>, \<open>.\<close> and \<open>-\<close>) it does what the builtins do: \<open>toLowerCase\<close> moves A to Z (codes 65 to
  90) to a to z, \<open>encodeURIComponent\<close> escapes \<open>@\<close>, and the machine's clock has no
  changes, so an hour is 3600000 ms.
\<close>

definition lower_char :: "char \<Rightarrow> char" where
  "lower_char c =
     (let n = (of_char c :: nat) in if 65 \<le> n \<and> n \<le> 90 then char_of (n + 32) else c)"

definition example_runtime :: runtime where
  "example_runtime =
     \<lparr>toLowerCase = map lower_char,
      encodeURIComponent = (\<lambda>x. Some (concat (map (\<lambda>c. if c = CHR ''@'' then ''%40'' else [c]) x))),
      addHours = (\<lambda>now h. Some (now + h * 3600000))\<rparr>"

definition all_ok :: env where
  "all_ok = \<lparr>sel_out = Succeeds, ins_try = Succeeds, upd_out = Succeeds, ins_catch = Succeeds,
     rt = example_runtime\<rparr>"

definition update_errors :: env where
  "update_errors = all_ok\<lparr>upd_out := ReturnsError\<rparr>"

definition grant1 :: SecureDownloadToken where
  "grant1 = \<lparr>tid = ''g1'', token = ''tok-1'', document_id = ''doc-1'',
     recipient_email = ''a@b.com'', order_id = ''order-1'', expires_at = 1000,
     max_downloads = 3, download_count = 2, is_active = True, created_at = 0,
     updated_at = 0\<rparr>"

definition store1 :: store where
  "store1 = \<lparr>tokens = [grant1], attempts = []\<rparr>"

definition insert_fails :: env where
  "insert_fails = all_ok\<lparr>ins_try := ReturnsError\<rparr>"

definition update_throws :: env where
  "update_throws = all_ok\<lparr>upd_out := Throws\<rparr>"

definition doc1 :: doc where
  "doc1 = \<lparr>doc_id = ''doc-1'', doc_name = ''report.pdf'', doc_url = ''https://x/report.pdf''\<rparr>"

definition doc2 :: doc where
  "doc2 = \<lparr>doc_id = ''doc-2'', doc_name = ''slides.pdf'', doc_url = ''https://x/slides.pdf''\<rparr>"

text \<open>A generator whose first token repeats the token of \<^const>\<open>grant1\<close> and whose
  later tokens are new.\<close>

definition colliding_genv :: genv where
  "colliding_genv =
     \<lparr>rpc_out = (\<lambda>i. if i = 0 then RpcData ''tok-1'' else RpcData ''tok-2''),
      store_out = (\<lambda>i. Succeeds),
      new_id = (\<lambda>i. if i = 0 then ''g2'' else ''g3''),
      baseUrl = ''https://shop'',
      omitted_max_downloads = None,
      grt = example_runtime\<rparr>"

definition no_config :: PartialConfig where
  "no_config = \<lparr>p_expirationHours = Absent, p_maxDownloads = Absent,
     p_requireEmailVerification = Absent\<rparr>"

definition session1 :: secure_download_session where
  "session1 = \<lparr>s_id = ''s1'', s_email = ''a@b.com'', s_expires_at = 1000, s_is_active = True,
     s_updated_at = 0, s_token = ''mfa-1'', verification_code = ''123456'',
     s_max_downloads = 3, s_download_count = 0, is_verified = False,
     device_fingerprint = None, download_window_start = 9, download_window_end = 18\<rparr>"

definition unlock1 :: progressive_unlock where
  "unlock1 = \<lparr>u_id = ''u1'', u_session_id = ''p1'', review_stage = ''review_1'',
     unlock_time = 100, u_documents = ''[]'', is_unlocked = False, unlocked_at = None\<rparr>"

definition unlock2 :: progressive_unlock where
  "unlock2 = \<lparr>u_id = ''u2'', u_session_id = ''p1'', review_stage = ''review_2'',
     unlock_time = 900, u_documents = ''[]'', is_unlocked = False, unlocked_at = None\<rparr>"

definition db1 :: sessions_db where
  "db1 = \<lparr>secure_download_sessions = [session1], blockchain_download_sessions = [],
     progressive_download_sessions = [], progressive_unlocks = [unlock1, unlock2],
     customer_portals = [], qr_download_sessions = []\<rparr>"

definition store_dead :: store where
  "store_dead = \<lparr>tokens = [grant1\<lparr>is_active := False\<rparr>], attempts = []\<rparr>"

definition history1 :: "op list" where
  "history1 =
     [Verify all_ok ''tok-1'' ''a@b.com'' None None 500,
      Generate colliding_genv [doc1] ''a@b.com'' ''order-1'' no_config 600,
      Revoke Succeeds ''g1'' 700,
      Cleanup Succeeds Succeeds 800]"

definition history2 :: "op list" where
  "history2 =
     [Verify all_ok ''tok-1'' ''a@b.com'' None None 2500,
      Generate colliding_genv [doc1] ''a@b.com'' ''order-1'' no_config 2600]"

definition verify_history :: "op list" where
  "verify_history =
     [Verify all_ok ''tok-1'' ''a@b.com'' None None 500,
      Verify all_ok ''tok-1'' ''A@B.com'' None None 501]"

definition all_inserts_fail :: env where
  "all_inserts_fail = all_ok\<lparr>ins_try := Throws, ins_catch := ReturnsError\<rparr>"

section \<open>Properties of verifyDownloadToken\<close>

lemma logDownloadAttempt_tokens:
  "tokens (logDownloadAttempt r ins i em b fr ip ua now s) = tokens s"
  by (simp add: logDownloadAttempt_def split: outcome.splits)

lemma await_update_log:
  "await_update out i f (logDownloadAttempt r ins j em b fr ip ua now s) =
     map_option (logDownloadAttempt r ins j em b fr ip ua now) (await_update out i f s)"
  by (simp add: await_update_def update_tokens_def logDownloadAttempt_def
      split: outcome.splits)

lemma verify_after_select_ins_irrelevant:
  "fst (verify_after_select (e\<lparr>ins_try := a, ins_catch := b\<rparr>) rep em ip ua now s) =
     fst (verify_after_select e rep em ip ua now s) \<and>
   tokens (snd (verify_after_select (e\<lparr>ins_try := a, ins_catch := b\<rparr>) rep em ip ua now s)) =
     tokens (snd (verify_after_select e rep em ip ua now s))"
  by (simp add: verify_after_select_def Let_def await_update_log logDownloadAttempt_tokens
        await_update_def update_tokens_def
      split: select_reply.splits option.splits outcome.splits)

lemma verify_finish_ins_irrelevant:
  "fst (verify_finish (e\<lparr>ins_try := a, ins_catch := b\<rparr>) rep em ip ua now s) =
     fst (verify_finish e rep em ip ua now s) \<and>
   tokens (snd (verify_finish (e\<lparr>ins_try := a, ins_catch := b\<rparr>) rep em ip ua now s)) =
     tokens (snd (verify_finish e rep em ip ua now s))"
  using verify_after_select_ins_irrelevant [where e = e and a = a and b = b and rep = rep
      and em = em and ip = ip and ua = ua and now = now and s = s]
  by (cases "verify_after_select e rep em ip ua now s";
      cases "verify_after_select (e\<lparr>ins_try := a, ins_catch := b\<rparr>) rep em ip ua now s")
     (auto simp: verify_finish_def verify_catch_def logDownloadAttempt_tokens
       split: option.splits)

lemma select_single_SelData:
  "select_single out t s = SelData td \<Longrightarrow>
     out = Succeeds \<and> filter (\<lambda>r. token r = t \<and> is_active r) (tokens s) = [td]"
  by (auto simp: select_single_def split: outcome.splits list.splits)

lemma select_single_member:
  assumes "select_single out t s = SelData td"
  shows "td \<in> set (tokens s) \<and> token td = t \<and> is_active td"
proof -
  have "td \<in> set (filter (\<lambda>r. token r = t \<and> is_active r) (tokens s))"
    using select_single_SelData [OF assms] by simp
  then show ?thesis by simp
qed

lemma lower_example:
  "toLowerCase (rt all_ok) ''A@B.com'' = ''a@b.com''"
  "toLowerCase (rt all_ok) ''a@b.com'' = ''a@b.com''"
  by code_simp+

lemma store1_resolves: "select_single (sel_out all_ok) ''tok-1'' store1 = SelData grant1"
  by (simp add: select_single_def all_ok_def store1_def grant1_def)

subsection \<open>A failing audit insert\<close>

text \<open>
  C10. A failure of the audit-log append never changes the outcome of verification:
  whatever the two audit inserts of a call do (succeed, return an error, throw), the
  decision returned and the resulting token table are the same.
\<close>

theorem audit_failure_never_changes_outcome:
  "fst (verifyDownloadToken (e\<lparr>ins_try := a, ins_catch := b\<rparr>) t em ip ua now s) =
     fst (verifyDownloadToken e t em ip ua now s) \<and>
   tokens (snd (verifyDownloadToken (e\<lparr>ins_try := a, ins_catch := b\<rparr>) t em ip ua now s)) =
     tokens (snd (verifyDownloadToken e t em ip ua now s))"
  using verify_finish_ins_irrelevant [where e = e and a = a and b = b
      and rep = "select_single (sel_out e) t s" and em = em and ip = ip and ua = ua
      and now = now and s = s]
  by (simp add: verifyDownloadToken_def)

subsection \<open>Letter case of the presented identity\<close>

text \<open>
  C5. Two verify calls that differ only in the letter case of the presented identity
  (the runtime's \<open>toLowerCase\<close> maps both identities to the same string) return the same
  decision; they also leave the same store, audit entry included.
\<close>

theorem verify_case_insensitive:
  assumes "toLowerCase (rt e) e1 = toLowerCase (rt e) e2"
  shows "verifyDownloadToken e t e1 ip ua now s = verifyDownloadToken e t e2 ip ua now s"
proof -
  have l: "\<And>ins i b fr s'. logDownloadAttempt (rt e) ins i e1 b fr ip ua now s' =
                            logDownloadAttempt (rt e) ins i e2 b fr ip ua now s'"
    using assms by (simp add: logDownloadAttempt_def split: outcome.splits)
  have "\<And>rep. verify_after_select e rep e1 ip ua now s =
              verify_after_select e rep e2 ip ua now s"
    subgoal for rep using assms by (cases rep) (simp_all add: verify_after_select_def l) done
  then show ?thesis
    by (simp add: verifyDownloadToken_def verify_finish_def verify_catch_def l
        split: prod.splits option.splits)
qed

theorem verify_case_insensitive_witness:
  "toLowerCase (rt all_ok) ''A@B.com'' = toLowerCase (rt all_ok) ''a@b.com'' \<and>
   verifyDownloadToken all_ok ''tok-1'' ''A@B.com'' None None 500 store1 =
     verifyDownloadToken all_ok ''tok-1'' ''a@b.com'' None None 500 store1"
proof -
  have h: "toLowerCase (rt all_ok) ''A@B.com'' = toLowerCase (rt all_ok) ''a@b.com''"
    by (simp add: lower_example)
  show ?thesis
    using h verify_case_insensitive [OF h] by simp
qed

subsection \<open>An expired grant\<close>

text \<open>
  C3, amended. A verify call that resolves an active grant whose expiry lies in the past,
  and whose update and audit insert the store carries out, is denied with the expiry
  reason, sets \<open>is_active\<close> to false on the grant's row in the store, and appends the audit
  entry of the attempt.
\<close>

theorem expired_grant_is_deactivated:
  assumes "select_single (sel_out e) t s = SelData td"
    and "expires_at td < now"
    and "ins_try e = Succeeds" and "upd_out e = Succeeds"
  shows "fst (verifyDownloadToken e t em ip ua now s) =
           \<lparr>valid = False, document = None, reason = Some ''Download link has expired'',
            tokenData = None\<rparr> \<and>
         tokens (snd (verifyDownloadToken e t em ip ua now s)) =
           map (\<lambda>r. if tid r = tid td then r\<lparr>is_active := False, updated_at := now\<rparr> else r)
             (tokens s) \<and>
         td\<lparr>is_active := False, updated_at := now\<rparr>
           \<in> set (tokens (snd (verifyDownloadToken e t em ip ua now s))) \<and>
         attempts (snd (verifyDownloadToken e t em ip ua now s)) =
           attempts s @
             [\<lparr>token_id = Some (tid td), attempted_email = toLowerCase (rt e) em,
               ip_address = ip,
               user_agent = ua, success = False, failure_reason = Some ''Token expired'',
               attempted_at = now\<rparr>]"
proof -
  have mem: "td \<in> set (tokens s)"
    using select_single_member [OF assms(1)] by simp
  have v: "verifyDownloadToken e t em ip ua now s =
     (\<lparr>valid = False, document = None, reason = Some ''Download link has expired'',
       tokenData = None\<rparr>,
      update_tokens (tid td) (\<lambda>r. r\<lparr>is_active := False, updated_at := now\<rparr>)
        (logDownloadAttempt (rt e) Succeeds (Some (tid td)) em False (Some ''Token expired'')
           ip ua now s))"
    using assms
    by (simp add: verifyDownloadToken_def verify_finish_def verify_catch_def
        verify_after_select_def await_update_def)
  have img: "td\<lparr>is_active := False, updated_at := now\<rparr>
      \<in> set (map (\<lambda>r. if tid r = tid td then r\<lparr>is_active := False, updated_at := now\<rparr>
                       else r) (tokens s))"
    using mem by force
  show ?thesis
    using img by (simp add: v update_tokens_def logDownloadAttempt_def)
qed

theorem expired_grant_is_deactivated_witness:
  "select_single (sel_out all_ok) ''tok-1'' store1 = SelData grant1 \<and>
   expires_at grant1 < 2000 \<and> ins_try all_ok = Succeeds \<and> upd_out all_ok = Succeeds \<and>
   fst (verifyDownloadToken all_ok ''tok-1'' ''A@B.com'' None None 2000 store1) =
     \<lparr>valid = False, document = None, reason = Some ''Download link has expired'',
      tokenData = None\<rparr> \<and>
   tokens (snd (verifyDownloadToken all_ok ''tok-1'' ''A@B.com'' None None 2000 store1)) =
     [grant1\<lparr>is_active := False, updated_at := 2000\<rparr>] \<and>
   length (attempts (snd (verifyDownloadToken all_ok ''tok-1'' ''A@B.com'' None None 2000
     store1))) = 1"
proof -
  have h1: "select_single (sel_out all_ok) ''tok-1'' store1 = SelData grant1"
    by (rule store1_resolves)
  have h2: "expires_at grant1 < 2000" by (simp add: grant1_def)
  have h3: "ins_try all_ok = Succeeds" by (simp add: all_ok_def)
  have h4: "upd_out all_ok = Succeeds" by (simp add: all_ok_def)
  show ?thesis
    using expired_grant_is_deactivated [OF h1 h2 h3 h4, of "''A@B.com''" None None] h1 h2 h3 h4
    by (simp add: store1_def)
qed

text \<open>
  C3 as stated fails: the reply of the update is not inspected, so when the update
  replies an error the call still reports the expiry and the grant stays active; and
  when the audit insert fails, no entry is written for the attempt.
\<close>

theorem expired_but_still_active:
  "select_single (sel_out update_errors) ''tok-1'' store1 = SelData grant1 \<and>
   expires_at grant1 < 2000 \<and>
   reason (fst (verifyDownloadToken update_errors ''tok-1'' ''a@b.com'' None None 2000 store1)) =
     Some ''Download link has expired'' \<and>
   map is_active
     (tokens (snd (verifyDownloadToken update_errors ''tok-1'' ''a@b.com'' None None 2000
                     store1))) = [True] \<and>
   reason (fst (verifyDownloadToken insert_fails ''tok-1'' ''a@b.com'' None None 2000 store1)) =
     Some ''Download link has expired'' \<and>
   attempts (snd (verifyDownloadToken insert_fails ''tok-1'' ''a@b.com'' None None 2000 store1)) =
     []"
  by code_simp

subsection \<open>What each operation does to the token table\<close>

lemma verify_finish_tokens_cases:
  "tokens (snd (verify_finish e rep em ip ua now s)) = tokens s \<or>
   (\<exists>td. rep = SelData td \<and> expires_at td < now \<and> upd_out e = Succeeds \<and>
      tokens (snd (verify_finish e rep em ip ua now s)) =
        map (\<lambda>r. if tid r = tid td then r\<lparr>is_active := False, updated_at := now\<rparr> else r)
          (tokens s)) \<or>
   (\<exists>td. rep = SelData td \<and> download_count td < max_downloads td \<and>
      valid (fst (verify_finish e rep em ip ua now s)) \<and>
      tokens (snd (verify_finish e rep em ip ua now s)) =
        map (\<lambda>r. if tid r = tid td
                  then r\<lparr>download_count := download_count td + 1, updated_at := now\<rparr> else r)
          (tokens s))"
  by (cases rep; cases "upd_out e")
     (simp_all add: verify_finish_def verify_catch_def verify_after_select_def Let_def
       await_update_def update_tokens_def logDownloadAttempt_tokens)

text \<open>Row-wise form: the table after a verify call is the old one mapped by a function
  that keeps token, id and quota and never activates.\<close>

lemma verify_finish_rowwise:
  "\<exists>f. tokens (snd (verify_finish e rep em ip ua now s)) = map f (tokens s) \<and>
       (\<forall>r. token (f r) = token r \<and> tid (f r) = tid r \<and> max_downloads (f r) = max_downloads r \<and>
            (is_active (f r) \<longrightarrow> is_active r))"
  using verify_finish_tokens_cases [of e rep em ip ua now s]
proof (elim disjE exE conjE)
  assume "tokens (snd (verify_finish e rep em ip ua now s)) = tokens s"
  then show ?thesis by (intro exI [of _ "\<lambda>r. r"]) simp
next
  fix td :: SecureDownloadToken
  assume "tokens (snd (verify_finish e rep em ip ua now s)) =
        map (\<lambda>r. if tid r = tid td then r\<lparr>is_active := False, updated_at := now\<rparr> else r)
          (tokens s)"
  then show ?thesis
    by (intro exI [of _ "\<lambda>r. if tid r = tid td then r\<lparr>is_active := False, updated_at := now\<rparr> else r"]) simp
next
  fix td :: SecureDownloadToken
  assume "tokens (snd (verify_finish e rep em ip ua now s)) =
        map (\<lambda>r. if tid r = tid td
                  then r\<lparr>download_count := download_count td + 1, updated_at := now\<rparr> else r)
          (tokens s)"
  then show ?thesis
    by (intro exI [of _ "\<lambda>r. if tid r = tid td
                  then r\<lparr>download_count := download_count td + 1, updated_at := now\<rparr> else r"]) simp
qed

lemma verify_tokens_rowwise:
  "\<exists>f. tokens (snd (verifyDownloadToken e t em ip ua now s)) = map f (tokens s) \<and>
       (\<forall>r. token (f r) = token r \<and> tid (f r) = tid r \<and> max_downloads (f r) = max_downloads r \<and>
            (is_active (f r) \<longrightarrow> is_active r))"
  using verify_finish_rowwise [of e "select_single (sel_out e) t s" em ip ua now s]
  by (simp add: verifyDownloadToken_def)

lemma revoke_tokens_rowwise:
  "\<exists>f. tokens (snd (revokeDownloadToken out i now s)) = map f (tokens s) \<and>
       (\<forall>r. token (f r) = token r \<and> tid (f r) = tid r \<and> max_downloads (f r) = max_downloads r \<and>
            (is_active (f r) \<longrightarrow> is_active r))"
proof (cases out)
  case Succeeds
  then show ?thesis
    by (intro exI [of _ "\<lambda>r. if tid r = i then r\<lparr>is_active := False, updated_at := now\<rparr> else r"])
       (simp add: revokeDownloadToken_def update_tokens_def)
next
  case ReturnsError
  then show ?thesis by (intro exI [of _ "\<lambda>r. r"]) (simp add: revokeDownloadToken_def)
next
  case Throws
  then show ?thesis by (intro exI [of _ "\<lambda>r. r"]) (simp add: revokeDownloadToken_def)
qed

lemma cleanup_tokens_rowwise:
  "\<exists>f. tokens (snd (cleanupExpiredTokens rpc sel now s)) = map f (tokens s) \<and>
       (\<forall>r. token (f r) = token r \<and> tid (f r) = tid r \<and> max_downloads (f r) = max_downloads r \<and>
            (is_active (f r) \<longrightarrow> is_active r))"
proof (cases rpc)
  case Succeeds
  then have "tokens (snd (cleanupExpiredTokens rpc sel now s)) =
      map (\<lambda>r. if expires_at r < now \<and> is_active r
                then r\<lparr>is_active := False, updated_at := now\<rparr> else r) (tokens s)"
    by (cases sel) (simp_all add: cleanupExpiredTokens_def cleanup_expired_tokens_def Let_def)
  then show ?thesis
    by (intro exI [of _ "\<lambda>r. if expires_at r < now \<and> is_active r
                then r\<lparr>is_active := False, updated_at := now\<rparr> else r"]) simp
next
  case ReturnsError
  then show ?thesis by (intro exI [of _ "\<lambda>r. r"]) (simp add: cleanupExpiredTokens_def)
next
  case Throws
  then show ?thesis by (intro exI [of _ "\<lambda>r. r"]) (simp add: cleanupExpiredTokens_def)
qed

text \<open>The generator only appends rows, each with a token and an id the table did not have.\<close>

lemma insert_token_Some:
  "insert_token out row s = Some s' \<Longrightarrow>
     tokens s' = tokens s @ [row] \<and>
     (\<forall>r \<in> set (tokens s). token r \<noteq> token row \<and> tid r \<noteq> tid row)"
  by (auto simp: insert_token_def list_ex_iff split: outcome.splits if_splits)

lemma generate_iteration_store:
  "snd (generate_iteration g em ord cfg expAt now i d acc) = snd acc \<or>
   (\<exists>row. insert_token (store_out g i) row (snd acc) =
            Some (snd (generate_iteration g em ord cfg expAt now i d acc)))"
  by (auto simp: generate_iteration_def split: rpc_reply.splits option.splits)

lemma generate_iteration_appends:
  "\<exists>new. tokens (snd (generate_iteration g em ord cfg expAt now i d acc)) = tokens (snd acc) @ new \<and>
     (\<forall>n \<in> set new. \<forall>r \<in> set (tokens (snd acc)). token r \<noteq> token n \<and> tid r \<noteq> tid n)"
  using generate_iteration_store [of g em ord cfg expAt now i d acc]
proof (elim disjE exE)
  assume "snd (generate_iteration g em ord cfg expAt now i d acc) = snd acc"
  then show ?thesis by (intro exI [of _ "[]"]) simp
next
  fix row :: SecureDownloadToken
  assume "insert_token (store_out g i) row (snd acc) =
            Some (snd (generate_iteration g em ord cfg expAt now i d acc))"
  from insert_token_Some [OF this] show ?thesis
    by (intro exI [of _ "[row]"]) simp
qed

lemma generate_loop_appends:
  "\<exists>new. tokens (snd (generate_loop g em ord cfg expAt now i ds acc)) = tokens (snd acc) @ new \<and>
     (\<forall>n \<in> set new. \<forall>r \<in> set (tokens (snd acc)). token r \<noteq> token n \<and> tid r \<noteq> tid n)"
proof (induction ds arbitrary: i acc)
  case Nil
  show ?case by (intro exI [of _ "[]"]) simp
next
  case (Cons d ds)
  obtain new1 where n1: "tokens (snd (generate_iteration g em ord cfg expAt now i d acc)) = tokens (snd acc) @ new1"
    and f1: "\<forall>n \<in> set new1. \<forall>r \<in> set (tokens (snd acc)). token r \<noteq> token n \<and> tid r \<noteq> tid n"
    using generate_iteration_appends by blast
  obtain new2 where n2: "tokens (snd (generate_loop g em ord cfg expAt now (Suc i) ds
        (generate_iteration g em ord cfg expAt now i d acc))) =
        tokens (snd (generate_iteration g em ord cfg expAt now i d acc)) @ new2"
    and f2: "\<forall>n \<in> set new2. \<forall>r \<in> set (tokens (snd (generate_iteration g em ord cfg expAt now i d acc))).
         token r \<noteq> token n \<and> tid r \<noteq> tid n"
    using Cons.IH by blast
  show ?case
    using n1 f1 n2 f2 by (intro exI [of _ "new1 @ new2"]) auto
qed

lemma generate_appends:
  "\<exists>new. tokens (snd (generateSecureDownloadTokens g ds em ord cfg now s)) = tokens s @ new \<and>
     (\<forall>n \<in> set new. \<forall>r \<in> set (tokens s). token r \<noteq> token n \<and> tid r \<noteq> tid n)"
  using generate_loop_appends [of g em ord "finalConfig cfg" _ now 0 ds "([], s)"]
  by (simp add: generateSecureDownloadTokens_def Let_def)


lemma run_op_shape:
  "(\<exists>f. tokens (run_op x s) = map f (tokens s) \<and>
       (\<forall>r. token (f r) = token r \<and> tid (f r) = tid r \<and> max_downloads (f r) = max_downloads r \<and>
            (is_active (f r) \<longrightarrow> is_active r))) \<or>
   (\<exists>new. tokens (run_op x s) = tokens s @ new \<and>
       (\<forall>n \<in> set new. \<forall>r \<in> set (tokens s). token r \<noteq> token n \<and> tid r \<noteq> tid n))"
proof (cases x)
  case (Verify e t em ip ua now)
  then show ?thesis using verify_tokens_rowwise [of e t em ip ua now s] by simp
next
  case (Revoke out i now)
  then show ?thesis using revoke_tokens_rowwise [of out i now s] by simp
next
  case (Cleanup rpc sel now)
  then show ?thesis using cleanup_tokens_rowwise [of rpc sel now s] by simp
next
  case (Generate g ds em ord cfg now)
  then show ?thesis using generate_appends [of g ds em ord cfg now s] by simp
qed

lemma dead_token_run_op: "dead_token t s \<Longrightarrow> dead_token t (run_op x s)"
  using run_op_shape [of x s]
  by (elim disjE exE conjE) (auto simp: dead_token_def list_ex_iff list_all_iff, metis)

lemma inactive_grant_run_op: "inactive_grant i s \<Longrightarrow> inactive_grant i (run_op x s)"
  using run_op_shape [of x s]
  by (elim disjE exE conjE) (auto simp: inactive_grant_def list_ex_iff list_all_iff, metis)

lemma dead_token_run_ops: "dead_token t s \<Longrightarrow> dead_token t (run_ops ops s)"
  unfolding run_ops_def by (induction ops arbitrary: s) (simp_all add: dead_token_run_op)

lemma inactive_grant_run_ops: "inactive_grant i s \<Longrightarrow> inactive_grant i (run_ops ops s)"
  unfolding run_ops_def by (induction ops arbitrary: s) (simp_all add: inactive_grant_run_op)

lemma dead_token_select:
  "dead_token t s \<Longrightarrow> select_single out t s = SelError \<or> select_single out t s = SelThrows"
proof -
  assume "dead_token t s"
  then have "filter (\<lambda>r. token r = t \<and> is_active r) (tokens s) = []"
    by (auto simp: dead_token_def list_all_iff filter_empty_conv)
  then show ?thesis by (cases out) (simp_all add: select_single_def)
qed

lemma verify_finish_SelError:
  "fst (verify_finish e SelError em ip ua now s) =
     \<lparr>valid = False, document = None, reason = Some ''Invalid or expired token'', tokenData = None\<rparr>"
  by (simp add: verify_finish_def verify_catch_def verify_after_select_def)

lemma verify_finish_SelThrows:
  "fst (verify_finish e SelThrows em ip ua now s) =
     \<lparr>valid = False, document = None, reason = Some ''System error occurred'', tokenData = None\<rparr>"
  by (simp add: verify_finish_def verify_catch_def verify_after_select_def)

lemma dead_token_denied:
  assumes "dead_token t s"
  shows "\<not> valid (fst (verifyDownloadToken e t em ip ua now s))"
  using dead_token_select [OF assms, of "sel_out e"]
  by (auto simp: verifyDownloadToken_def verify_finish_SelError verify_finish_SelThrows)

lemma dead_token_invalid:
  assumes "dead_token t s" and "sel_out e \<noteq> Throws"
  shows "reason (fst (verifyDownloadToken e t em ip ua now s)) = Some ''Invalid or expired token''"
proof -
  have "select_single (sel_out e) t s \<noteq> SelThrows"
    using assms(2) by (cases "sel_out e") (simp_all add: select_single_def split: list.splits)
  then have "select_single (sel_out e) t s = SelError"
    using dead_token_select [OF assms(1), of "sel_out e"] by simp
  then show ?thesis by (simp add: verifyDownloadToken_def verify_finish_SelError)
qed

subsection \<open>Inactive grants stay inactive\<close>

text \<open>
  C4. Once the grant of a token is inactive, it stays inactive through every later
  history of operations (verify calls, revocations, sweeps, issuances), and no later
  verify call on that token is allowed; likewise every grant, taken by its id, stays
  inactive once it is, so no operation sets \<open>is_active\<close> back to true.
\<close>

theorem inactive_never_allows_again:
  "(dead_token t s \<longrightarrow>
      dead_token t (run_ops ops s) \<and>
      \<not> valid (fst (verifyDownloadToken e t em ip ua now (run_ops ops s)))) \<and>
   (inactive_grant i s \<longrightarrow> inactive_grant i (run_ops ops s))"
proof (intro conjI impI)
  assume d: "dead_token t s"
  show later: "dead_token t (run_ops ops s)"
    by (rule dead_token_run_ops [OF d])
  show "\<not> valid (fst (verifyDownloadToken e t em ip ua now (run_ops ops s)))"
    by (rule dead_token_denied [OF later])
next
  assume "inactive_grant i s"
  then show "inactive_grant i (run_ops ops s)"
    by (rule inactive_grant_run_ops)
qed

theorem inactive_never_allows_again_witness:
  "dead_token ''tok-1'' store_dead \<and> inactive_grant ''g1'' store_dead \<and>
   dead_token ''tok-1'' (run_ops history1 store_dead) \<and>
   \<not> valid (fst (verifyDownloadToken all_ok ''tok-1'' ''a@b.com'' None None 900
                  (run_ops history1 store_dead))) \<and>
   inactive_grant ''g1'' (run_ops history1 store_dead)"
proof -
  have h1: "dead_token ''tok-1'' store_dead"
    by (simp add: dead_token_def store_dead_def grant1_def)
  have h2: "inactive_grant ''g1'' store_dead"
    by (simp add: inactive_grant_def store_dead_def grant1_def)
  show ?thesis
    using h1 h2
      inactive_never_allows_again [of "''tok-1''" store_dead history1 all_ok "''a@b.com''"
        None None 900 "''g1''"]
    by simp
qed

subsection \<open>Expiry, then an unknown token\<close>

lemma list_all_mapI: "(\<And>r. r \<in> set xs \<Longrightarrow> P (f r)) \<Longrightarrow> list_all P (map f xs)"
  by (simp add: list_all_iff)

lemma list_ex_mapI: "r \<in> set xs \<Longrightarrow> P (f r) \<Longrightarrow> list_ex P (map f xs)"
  by (auto simp: list_ex_iff)

lemma verify_expired:
  assumes "select_single (sel_out e) t s = SelData td"
    and "expires_at td < now" and "upd_out e = Succeeds"
  shows "fst (verifyDownloadToken e t em ip ua now s) =
           \<lparr>valid = False, document = None, reason = Some ''Download link has expired'',
            tokenData = None\<rparr>"
    and "tokens (snd (verifyDownloadToken e t em ip ua now s)) =
           map (\<lambda>r. if tid r = tid td then r\<lparr>is_active := False, updated_at := now\<rparr> else r)
             (tokens s)"
  using assms
  by (simp_all add: verifyDownloadToken_def verify_finish_def verify_catch_def
      verify_after_select_def await_update_def update_tokens_def logDownloadAttempt_tokens)

lemma verify_expired_dead:
  assumes "select_single (sel_out e) t s = SelData td"
    and "expires_at td < now" and "upd_out e = Succeeds"
  shows "dead_token t (snd (verifyDownloadToken e t em ip ua now s))"
proof -
  let ?f = "\<lambda>r. if tid r = tid td then r\<lparr>is_active := False, updated_at := now\<rparr> else r"
  have tk: "tokens (snd (verifyDownloadToken e t em ip ua now s)) = map ?f (tokens s)"
    using verify_expired(2) [OF assms] .
  have mem: "td \<in> set (tokens s)" and tok: "token td = t"
    using select_single_member [OF assms(1)] by simp_all
  have only: "\<And>r. r \<in> set (tokens s) \<Longrightarrow> token r = t \<Longrightarrow> is_active r \<Longrightarrow> r = td"
  proof -
    fix r assume "r \<in> set (tokens s)" "token r = t" "is_active r"
    then have "r \<in> set (filter (\<lambda>r. token r = t \<and> is_active r) (tokens s))" by simp
    then show "r = td" using select_single_SelData [OF assms(1)] by simp
  qed
  have ex: "list_ex (\<lambda>r. token r = t) (map ?f (tokens s))"
    using mem tok by (intro list_ex_mapI [of td]) simp_all
  have al: "list_all (\<lambda>r. token r = t \<longrightarrow> \<not> is_active r) (map ?f (tokens s))"
    using only by (intro list_all_mapI) auto
  show ?thesis
    unfolding dead_token_def tk using ex al by simp
qed

text \<open>
  C9, amended. When the first verify call on an expired token resolves the grant and its
  update takes effect, that call is denied with the expiry reason and deactivates the
  grant; from then on,
  whatever operations come between, every verify call on that token whose select does not
  throw is denied with the invalid-token reason, because the select only sees active rows.
\<close>

theorem expired_then_invalid:
  assumes "select_single (sel_out e1) t s = SelData td"
    and "expires_at td < now1" and "upd_out e1 = Succeeds"
    and "sel_out e2 \<noteq> Throws"
  shows "reason (fst (verifyDownloadToken e1 t em1 ip1 ua1 now1 s)) =
           Some ''Download link has expired'' \<and>
         dead_token t (snd (verifyDownloadToken e1 t em1 ip1 ua1 now1 s)) \<and>
         reason (fst (verifyDownloadToken e2 t em2 ip2 ua2 now2
                   (run_ops ops (snd (verifyDownloadToken e1 t em1 ip1 ua1 now1 s))))) =
           Some ''Invalid or expired token''"
proof -
  have d: "dead_token t (snd (verifyDownloadToken e1 t em1 ip1 ua1 now1 s))"
    by (rule verify_expired_dead [OF assms(1-3)])
  have "dead_token t (run_ops ops (snd (verifyDownloadToken e1 t em1 ip1 ua1 now1 s)))"
    by (rule dead_token_run_ops [OF d])
  then show ?thesis
    using d verify_expired(1) [OF assms(1-3)] dead_token_invalid [OF _ assms(4)] by simp
qed

theorem expired_then_invalid_witness:
  "select_single (sel_out all_ok) ''tok-1'' store1 = SelData grant1 \<and>
   expires_at grant1 < 2000 \<and> upd_out all_ok = Succeeds \<and> sel_out all_ok \<noteq> Throws \<and>
   reason (fst (verifyDownloadToken all_ok ''tok-1'' ''a@b.com'' None None 2000 store1)) =
     Some ''Download link has expired'' \<and>
   reason (fst (verifyDownloadToken all_ok ''tok-1'' ''a@b.com'' None None 3000
             (run_ops history2
                (snd (verifyDownloadToken all_ok ''tok-1'' ''a@b.com'' None None 2000 store1))))) =
     Some ''Invalid or expired token''"
proof -
  have h1: "select_single (sel_out all_ok) ''tok-1'' store1 = SelData grant1"
    by (rule store1_resolves)
  have h2: "expires_at grant1 < 2000" by (simp add: grant1_def)
  have h3: "upd_out all_ok = Succeeds" by (simp add: all_ok_def)
  have h4: "sel_out all_ok \<noteq> Throws" by (simp add: all_ok_def)
  show ?thesis
    using expired_then_invalid [OF h1 h2 h3 h4, of "''a@b.com''" None None "''a@b.com''" None None
        3000 history2] h1 h2 h3 h4
    by simp
qed

text \<open>
  C9 as stated fails: when the update of the first call replies an error, the grant stays
  active and the next call on the token reports the expiry again.
\<close>

theorem expiry_reported_twice:
  "reason (fst (verifyDownloadToken update_errors ''tok-1'' ''a@b.com'' None None 2000 store1)) =
     Some ''Download link has expired'' \<and>
   reason (fst (verifyDownloadToken all_ok ''tok-1'' ''a@b.com'' None None 3000
             (snd (verifyDownloadToken update_errors ''tok-1'' ''a@b.com'' None None 2000
                     store1)))) =
     Some ''Download link has expired''"
  by code_simp

subsection \<open>The download quota\<close>

lemma distinct_tid_eq:
  "distinct (map tid xs) \<Longrightarrow> r \<in> set xs \<Longrightarrow> td \<in> set xs \<Longrightarrow> tid r = tid td \<Longrightarrow> r = td"
  by (meson distinct_map inj_on_def)

lemma verify_quota_inv:
  assumes "distinct (map tid (tokens s))" and "quota_inv s"
  shows "quota_inv (snd (verifyDownloadToken e t em ip ua now s)) \<and>
         map tid (tokens (snd (verifyDownloadToken e t em ip ua now s))) = map tid (tokens s)"
  using verify_finish_tokens_cases [of e "select_single (sel_out e) t s" em ip ua now s]
proof (elim disjE exE conjE)
  assume "tokens (snd (verify_finish e (select_single (sel_out e) t s) em ip ua now s)) = tokens s"
  then show ?thesis using assms by (simp add: verifyDownloadToken_def quota_inv_def)
next
  fix td :: SecureDownloadToken
  assume "tokens (snd (verify_finish e (select_single (sel_out e) t s) em ip ua now s)) =
        map (\<lambda>r. if tid r = tid td then r\<lparr>is_active := False, updated_at := now\<rparr> else r)
          (tokens s)"
  then have tk: "tokens (snd (verifyDownloadToken e t em ip ua now s)) =
        map (\<lambda>r. if tid r = tid td then r\<lparr>is_active := False, updated_at := now\<rparr> else r)
          (tokens s)"
    by (simp add: verifyDownloadToken_def)
  have "list_all (\<lambda>r. download_count r \<le> max_downloads r)
          (map (\<lambda>r. if tid r = tid td then r\<lparr>is_active := False, updated_at := now\<rparr> else r)
             (tokens s))"
    using assms(2) by (intro list_all_mapI) (auto simp: quota_inv_def list_all_iff)
  then show ?thesis unfolding quota_inv_def tk by (simp add: comp_def if_distrib cong: if_cong)
next
  fix td :: SecureDownloadToken
  assume rep: "select_single (sel_out e) t s = SelData td"
    and lt: "download_count td < max_downloads td"
    and tk: "tokens (snd (verify_finish e (select_single (sel_out e) t s) em ip ua now s)) =
        map (\<lambda>r. if tid r = tid td
                  then r\<lparr>download_count := download_count td + 1, updated_at := now\<rparr> else r)
          (tokens s)"
  have mem: "td \<in> set (tokens s)" using select_single_member [OF rep] by simp
  have le: "\<And>r. r \<in> set (tokens s) \<Longrightarrow> tid r = tid td \<Longrightarrow> download_count td + 1 \<le> max_downloads r"
    using distinct_tid_eq [OF assms(1) _ mem] lt by fastforce
  have tk': "tokens (snd (verifyDownloadToken e t em ip ua now s)) =
        map (\<lambda>r. if tid r = tid td
                  then r\<lparr>download_count := download_count td + 1, updated_at := now\<rparr> else r)
          (tokens s)"
    using tk by (simp add: verifyDownloadToken_def)
  have "list_all (\<lambda>r. download_count r \<le> max_downloads r)
          (map (\<lambda>r. if tid r = tid td
                  then r\<lparr>download_count := download_count td + 1, updated_at := now\<rparr> else r)
             (tokens s))"
    using assms(2) le by (intro list_all_mapI) (auto simp: quota_inv_def list_all_iff)
  then show ?thesis unfolding quota_inv_def tk' by (simp add: comp_def if_distrib cong: if_cong)
qed

lemma verify_runs_quota_inv:
  "distinct (map tid (tokens s)) \<Longrightarrow> quota_inv s \<Longrightarrow> list_all is_verify ops \<Longrightarrow>
     quota_inv (fold run_op ops s) \<and> distinct (map tid (tokens (fold run_op ops s)))"
proof (induction ops arbitrary: s)
  case Nil
  then show ?case by simp
next
  case (Cons x ops)
  then obtain e t em ip ua now where x: "x = Verify e t em ip ua now"
    by (cases x) simp_all
  have "quota_inv (run_op x s)" and "distinct (map tid (tokens (run_op x s)))"
    using verify_quota_inv [OF Cons.prems(1,2), of e t em ip ua now] Cons.prems(1) x by simp_all
  then show ?case using Cons.IH [of "run_op x s"] Cons.prems(3) by simp
qed

text \<open>
  C1, amended. For verify calls that run one after the other on a table with unique ids
  on which no counter exceeds its quota to begin with, no grant's counter ever exceeds
  its quota. The increment is a read-modify-write of the
  application: a call is allowed when the row its select returned has quota left, and the
  update it then issues writes that row's count plus one, whatever the table holds by then.
\<close>

theorem sequential_verify_keeps_quota:
  assumes "distinct (map tid (tokens s))" and "quota_inv s" and "list_all is_verify ops"
  shows "quota_inv (run_ops ops s) \<and>
         (valid (fst (verify_finish e rep em ip ua now s')) \<longrightarrow>
            (\<exists>td. rep = SelData td \<and> download_count td < max_downloads td \<and>
                  (upd_out e = Succeeds \<longrightarrow>
                     tokens (snd (verify_finish e rep em ip ua now s')) =
                       map (\<lambda>r. if tid r = tid td
                                 then r\<lparr>download_count := download_count td + 1,
                                        updated_at := now\<rparr>
                                 else r) (tokens s'))))"
proof -
  have a: "quota_inv (run_ops ops s)"
    using verify_runs_quota_inv [OF assms] by (simp add: run_ops_def)
  have b: "valid (fst (verify_finish e rep em ip ua now s')) \<longrightarrow>
            (\<exists>td. rep = SelData td \<and> download_count td < max_downloads td \<and>
                  (upd_out e = Succeeds \<longrightarrow>
                     tokens (snd (verify_finish e rep em ip ua now s')) =
                       map (\<lambda>r. if tid r = tid td
                                 then r\<lparr>download_count := download_count td + 1,
                                        updated_at := now\<rparr>
                                 else r) (tokens s')))"
    by (cases rep; cases "upd_out e")
       (simp_all add: verify_finish_def verify_catch_def verify_after_select_def Let_def
         await_update_def update_tokens_def logDownloadAttempt_tokens)
  show ?thesis using a b by simp
qed

theorem sequential_verify_keeps_quota_witness:
  "distinct (map tid (tokens store1)) \<and> quota_inv store1 \<and> list_all is_verify verify_history \<and>
   quota_inv (run_ops verify_history store1) \<and>
   valid (fst (verify_finish all_ok (SelData grant1) ''a@b.com'' None None 500 store1)) \<and>
   upd_out all_ok = Succeeds \<and>
   (\<exists>td. SelData grant1 = SelData td \<and> download_count td < max_downloads td \<and>
      tokens (snd (verify_finish all_ok (SelData grant1) ''a@b.com'' None None 500 store1)) =
        map (\<lambda>r. if tid r = tid td
                  then r\<lparr>download_count := download_count td + 1, updated_at := 500\<rparr> else r)
          (tokens store1))"
proof -
  have h1: "distinct (map tid (tokens store1))" by (simp add: store1_def)
  have h2: "quota_inv store1" by (simp add: quota_inv_def store1_def grant1_def)
  have h3: "list_all is_verify verify_history" by (simp add: verify_history_def)
  have h4: "valid (fst (verify_finish all_ok (SelData grant1) ''a@b.com'' None None 500 store1))"
    by code_simp
  have h5: "upd_out all_ok = Succeeds" by (simp add: all_ok_def)
  show ?thesis
    using sequential_verify_keeps_quota [OF h1 h2 h3, of all_ok "SelData grant1" "''a@b.com''"
        None None 500 store1] h1 h2 h3 h4 h5
    by simp
qed

text \<open>
  C1 as stated fails: two calls whose selects both run before either update are both
  allowed on the one download that was left; the counter ends at the quota.
\<close>

theorem concurrent_verifies_share_last_slot:
  "max_downloads grant1 - download_count grant1 = 1 \<and>
   valid (fst (fst (verify_interleaved all_ok all_ok ''tok-1'' ''a@b.com'' ''A@B.com'' 500 store1))) \<and>
   valid (snd (fst (verify_interleaved all_ok all_ok ''tok-1'' ''a@b.com'' ''A@B.com'' 500 store1))) \<and>
   map download_count
     (tokens (snd (verify_interleaved all_ok all_ok ''tok-1'' ''a@b.com'' ''A@B.com'' 500 store1))) = [3]"
  by code_simp

subsection \<open>The audit trail\<close>

lemma update_tokens_attempts: "attempts (update_tokens i f s) = attempts s"
  by (simp add: update_tokens_def)

text \<open>
  C6, amended. When the audit inserts succeed and the update does not throw, a verify call
  appends exactly one audit entry on every branch: it holds the lower-cased identity, the
  client hints, the success flag of the decision, the failure reason that goes with the
  returned reason, and the grant id (null when the token did not resolve). When the
  inserts fail, the call appends nothing.
\<close>

theorem one_audit_entry_per_call:
  "(ins_try e = Succeeds \<and> ins_catch e = Succeeds \<and> upd_out e \<noteq> Throws \<longrightarrow>
      (\<exists>a. attempts (snd (verifyDownloadToken e t em ip ua now s)) = attempts s @ [a] \<and>
           attempted_email a = toLowerCase (rt e) em \<and> ip_address a = ip \<and>
           user_agent a = ua \<and>
           attempted_at a = now \<and>
           success a = valid (fst (verifyDownloadToken e t em ip ua now s)) \<and>
           reason (fst (verifyDownloadToken e t em ip ua now s)) =
             map_option reported_for (failure_reason a) \<and>
           token_id a =
             (case select_single (sel_out e) t s of
                SelData td \<Rightarrow> Some (tid td) | SelError \<Rightarrow> None | SelThrows \<Rightarrow> None))) \<and>
   (ins_try e \<noteq> Succeeds \<and> ins_catch e \<noteq> Succeeds \<longrightarrow>
      attempts (snd (verifyDownloadToken e t em ip ua now s)) = attempts s)"
proof -
  have a: "ins_try e = Succeeds \<Longrightarrow> ins_catch e = Succeeds \<Longrightarrow> upd_out e \<noteq> Throws \<Longrightarrow>
      (\<exists>a. attempts (snd (verify_finish e rep em ip ua now s)) = attempts s @ [a] \<and>
           attempted_email a = toLowerCase (rt e) em \<and> ip_address a = ip \<and>
           user_agent a = ua \<and>
           attempted_at a = now \<and>
           success a = valid (fst (verify_finish e rep em ip ua now s)) \<and>
           reason (fst (verify_finish e rep em ip ua now s)) =
             map_option reported_for (failure_reason a) \<and>
           token_id a =
             (case rep of
                SelData td \<Rightarrow> Some (tid td) | SelError \<Rightarrow> None | SelThrows \<Rightarrow> None))" for rep
    by (cases rep; cases "upd_out e")
       (simp_all add: verify_finish_def verify_catch_def verify_after_select_def Let_def
         await_update_def update_tokens_attempts logDownloadAttempt_def reported_for_def)
  have b: "ins_try e \<noteq> Succeeds \<Longrightarrow> ins_catch e \<noteq> Succeeds \<Longrightarrow>
      attempts (snd (verify_finish e rep em ip ua now s)) = attempts s" for rep
    by (cases rep; cases "upd_out e"; cases "ins_try e"; cases "ins_catch e")
       (simp_all add: verify_finish_def verify_catch_def verify_after_select_def Let_def
         await_update_def update_tokens_attempts logDownloadAttempt_def)
  show ?thesis using a b by (simp add: verifyDownloadToken_def)
qed

theorem one_audit_entry_per_call_witness:
  "ins_try all_ok = Succeeds \<and> ins_catch all_ok = Succeeds \<and> upd_out all_ok \<noteq> Throws \<and>
   (\<exists>a. attempts (snd (verifyDownloadToken all_ok ''tok-1'' ''A@B.com'' None None 500 store1)) =
          attempts store1 @ [a] \<and> attempted_email a = toLowerCase (rt all_ok) ''A@B.com'') \<and>
   ins_try all_inserts_fail \<noteq> Succeeds \<and> ins_catch all_inserts_fail \<noteq> Succeeds \<and>
   attempts (snd (verifyDownloadToken all_inserts_fail ''tok-1'' ''A@B.com'' None None 500 store1)) =
     attempts store1"
proof -
  have h1: "ins_try all_ok = Succeeds \<and> ins_catch all_ok = Succeeds \<and> upd_out all_ok \<noteq> Throws"
    by (simp add: all_ok_def)
  have h2: "ins_try all_inserts_fail \<noteq> Succeeds \<and> ins_catch all_inserts_fail \<noteq> Succeeds"
    by (simp add: all_inserts_fail_def all_ok_def)
  show ?thesis
    using h1 h2
      one_audit_entry_per_call [of all_ok "''tok-1''" "''A@B.com''" None None 500 store1]
      one_audit_entry_per_call [of all_inserts_fail "''tok-1''" "''A@B.com''" None None 500 store1]
    by blast
qed

text \<open>
  C6 as stated fails: with a failing audit insert an allowed call appends no entry, and
  when the update throws after the success entry was written the call appends a second
  entry and reports a system error.
\<close>

theorem audit_entries_not_always_one:
  "valid (fst (verifyDownloadToken insert_fails ''tok-1'' ''a@b.com'' None None 500 store1)) \<and>
   attempts (snd (verifyDownloadToken insert_fails ''tok-1'' ''a@b.com'' None None 500 store1)) = [] \<and>
   reason (fst (verifyDownloadToken update_throws ''tok-1'' ''a@b.com'' None None 500 store1)) =
     Some ''System error occurred'' \<and>
   map failure_reason
     (attempts (snd (verifyDownloadToken update_throws ''tok-1'' ''a@b.com'' None None 500 store1))) =
     [None, Some ''System error'']"
  by code_simp

section \<open>Properties of the maintenance procedures\<close>

lemma map_idem: "(\<And>x. f (f x) = f x) \<Longrightarrow> map f (map f xs) = map f xs"
  by (induction xs) simp_all

lemma expire_stamped_idem: "expire_stamped now (expire_stamped now rows) = expire_stamped now rows"
  unfolding expire_stamped_def by (rule map_idem) simp

lemma expire_unstamped_idem:
  "expire_unstamped now (expire_unstamped now rows) = expire_unstamped now rows"
  unfolding expire_unstamped_def by (rule map_idem) simp

lemma cleanup_idem:
  "cleanup_expired_sessions now (cleanup_expired_sessions now db) = cleanup_expired_sessions now db"
  by (simp add: cleanup_expired_sessions_def expire_stamped_idem expire_unstamped_idem)

lemma unlock_idem:
  "unlock_progressive_stages now (unlock_progressive_stages now db) =
     unlock_progressive_stages now db"
proof -
  have "map (\<lambda>u. if unlock_time u \<le> now \<and> is_unlocked u = False
                    then u\<lparr>is_unlocked := True, unlocked_at := Some now\<rparr> else u)
          (map (\<lambda>u. if unlock_time u \<le> now \<and> is_unlocked u = False
                    then u\<lparr>is_unlocked := True, unlocked_at := Some now\<rparr> else u)
            (progressive_unlocks db)) =
        map (\<lambda>u. if unlock_time u \<le> now \<and> is_unlocked u = False
                    then u\<lparr>is_unlocked := True, unlocked_at := Some now\<rparr> else u)
            (progressive_unlocks db)"
    by (rule map_idem) simp
  then show ?thesis by (simp add: unlock_progressive_stages_def)
qed

lemma unlock_nth:
  "i < length (progressive_unlocks db) \<Longrightarrow>
     progressive_unlocks (unlock_progressive_stages now db) ! i =
       (let u = progressive_unlocks db ! i
        in if unlock_time u \<le> now \<and> is_unlocked u = False
           then u\<lparr>is_unlocked := True, unlocked_at := Some now\<rparr> else u)"
  by (simp add: unlock_progressive_stages_def Let_def)

lemma unlock_length:
  "length (progressive_unlocks (unlock_progressive_stages now db)) =
     length (progressive_unlocks db)"
  by (simp add: unlock_progressive_stages_def)

lemma unlock_sweeps_keep:
  "length (progressive_unlocks (unlock_sweeps nows db)) = length (progressive_unlocks db) \<and>
   (\<forall>i < length (progressive_unlocks db).
      is_unlocked (progressive_unlocks db ! i) \<longrightarrow>
        progressive_unlocks (unlock_sweeps nows db) ! i = progressive_unlocks db ! i)"
  unfolding unlock_sweeps_def
proof (induction nows arbitrary: db)
  case Nil
  show ?case by simp
next
  case (Cons n nows)
  have 1: "\<forall>i < length (progressive_unlocks db).
      is_unlocked (progressive_unlocks db ! i) \<longrightarrow>
        progressive_unlocks (unlock_progressive_stages n db) ! i = progressive_unlocks db ! i"
    by (simp add: unlock_nth Let_def)
  show ?case
    using Cons.IH [of "unlock_progressive_stages n db"] 1 by (simp add: unlock_length)
qed

text \<open>
  C7. Both maintenance procedures are idempotent at an instant: running
  \<open>unlock_progressive_stages\<close> or \<open>cleanup_expired_sessions\<close> twice gives the state of
  running it once. Unlocking is monotonic: an unlocked entry is left exactly as it is by
  every later run of sweeps (never locked again, never stamped again), a locked entry
  whose unlock time has passed becomes unlocked and stamped with the instant of the sweep,
  and a locked entry whose unlock time lies ahead is left as it is.
\<close>

theorem sweeps_idempotent_monotonic:
  "unlock_progressive_stages now (unlock_progressive_stages now db) =
     unlock_progressive_stages now db \<and>
   cleanup_expired_sessions now (cleanup_expired_sessions now db) =
     cleanup_expired_sessions now db \<and>
   length (progressive_unlocks (unlock_sweeps nows db)) = length (progressive_unlocks db) \<and>
   (\<forall>i < length (progressive_unlocks db).
      (is_unlocked (progressive_unlocks db ! i) \<longrightarrow>
         progressive_unlocks (unlock_sweeps nows db) ! i = progressive_unlocks db ! i) \<and>
      (\<not> is_unlocked (progressive_unlocks db ! i) \<and> unlock_time (progressive_unlocks db ! i) \<le> now \<longrightarrow>
         progressive_unlocks (unlock_progressive_stages now db) ! i =
           (progressive_unlocks db ! i)\<lparr>is_unlocked := True, unlocked_at := Some now\<rparr>) \<and>
      (\<not> is_unlocked (progressive_unlocks db ! i) \<and> now < unlock_time (progressive_unlocks db ! i) \<longrightarrow>
         progressive_unlocks (unlock_progressive_stages now db) ! i = progressive_unlocks db ! i))"
  using unlock_sweeps_keep [of nows db]
  by (simp add: unlock_idem cleanup_idem unlock_nth Let_def)

theorem sweeps_idempotent_monotonic_witness:
  "(1::nat) < length (progressive_unlocks db1) \<and>
   \<not> is_unlocked (progressive_unlocks db1 ! 0) \<and> unlock_time (progressive_unlocks db1 ! 0) \<le> 500 \<and>
   progressive_unlocks (unlock_progressive_stages 500 db1) ! 0 =
     unlock1\<lparr>is_unlocked := True, unlocked_at := Some 500\<rparr> \<and>
   \<not> is_unlocked (progressive_unlocks db1 ! 1) \<and> 500 < unlock_time (progressive_unlocks db1 ! 1) \<and>
   progressive_unlocks (unlock_progressive_stages 500 db1) ! 1 = unlock2 \<and>
   is_unlocked (progressive_unlocks (unlock_progressive_stages 500 db1) ! 0) \<and>
   progressive_unlocks (unlock_sweeps [600, 700] (unlock_progressive_stages 500 db1)) ! 0 =
     unlock1\<lparr>is_unlocked := True, unlocked_at := Some 500\<rparr> \<and>
   cleanup_expired_sessions 2000 (cleanup_expired_sessions 2000 db1) = cleanup_expired_sessions 2000 db1"
proof -
  have h0: "(0::nat) < length (progressive_unlocks db1)" "(1::nat) < length (progressive_unlocks db1)"
    by (simp_all add: db1_def)
  have h1: "\<not> is_unlocked (progressive_unlocks db1 ! 0) \<and> unlock_time (progressive_unlocks db1 ! 0) \<le> 500"
    by (simp add: db1_def unlock1_def)
  have h2: "\<not> is_unlocked (progressive_unlocks db1 ! 1) \<and> 500 < unlock_time (progressive_unlocks db1 ! 1)"
    by (simp add: db1_def unlock2_def)
  have e: "progressive_unlocks db1 ! 0 = unlock1" "progressive_unlocks db1 ! 1 = unlock2"
    by (simp_all add: db1_def)
  have h3: "(0::nat) < length (progressive_unlocks (unlock_progressive_stages 500 db1))"
    by (simp add: unlock_progressive_stages_def db1_def)
  have a: "progressive_unlocks (unlock_progressive_stages 500 db1) ! 0 =
     unlock1\<lparr>is_unlocked := True, unlocked_at := Some 500\<rparr>"
    using sweeps_idempotent_monotonic [of 500 db1 "[]"] h0 h1 e by simp
  have b: "progressive_unlocks (unlock_progressive_stages 500 db1) ! 1 = unlock2"
    using sweeps_idempotent_monotonic [of 500 db1 "[]"] h0 h2 e by simp
  have c: "is_unlocked (progressive_unlocks (unlock_progressive_stages 500 db1) ! 0)"
    using a by simp
  have d: "progressive_unlocks (unlock_sweeps [600, 700] (unlock_progressive_stages 500 db1)) ! 0 =
     unlock1\<lparr>is_unlocked := True, unlocked_at := Some 500\<rparr>"
    using sweeps_idempotent_monotonic [of 0 "unlock_progressive_stages 500 db1" "[600, 700]"] h3 c a
    by simp
  show ?thesis
    using h0 h1 h2 a b c d sweeps_idempotent_monotonic [of 2000 db1 "[]"] by simp
qed

section \<open>Properties of generateSecureDownloadTokens\<close>

lemma insert_token_collision:
  "list_ex (\<lambda>r. token r = token row) (tokens s) \<Longrightarrow> insert_token out row s = None"
  by (cases out) (auto simp: insert_token_def list_ex_iff)

lemma generate_iteration_collision:
  assumes "rpc_out g i = RpcData tok" and "list_ex (\<lambda>r. token r = tok) (tokens (snd acc))"
  shows "generate_iteration g em ord cfg expAt now i d acc = acc"
  using assms
  by (simp add: generate_iteration_def insert_token_collision split: option.splits)

text \<open>
  C8, amended. When the token generated for a document is already in the table, the
  insert is refused and the generator makes no second attempt: an issuance of that one
  document returns the empty list and leaves the store as it was, and with more documents
  the loop simply goes on with the next one, at whatever position the collision occurs.
  The call returns normally either way. No row already in the table is ever overwritten:
  the table only grows at its end.
\<close>

theorem collision_skips_document:
  assumes "rpc_out g 0 = RpcData tok" and "list_ex (\<lambda>r. token r = tok) (tokens s)"
  shows "generateSecureDownloadTokens g [d] em ord c now s = ([], s) \<and>
         generateSecureDownloadTokens g (d # ds) em ord c now s =
           generate_loop g em ord (finalConfig c) (expiry (grt g) (finalConfig c) now) now
             (Suc 0) ds ([], s) \<and>
         (\<exists>new. tokens (snd (generateSecureDownloadTokens g' docs em' ord' c' now' s')) =
                  tokens s' @ new) \<and>
         (rpc_out g i = RpcData tok' \<and> list_ex (\<lambda>r. token r = tok') (tokens (snd acc)) \<longrightarrow>
            generate_loop g em ord cfg expAt now i (d # ds) acc =
              generate_loop g em ord cfg expAt now (Suc i) ds acc)"
proof -
  have step: "rpc_out g i = RpcData tok' \<Longrightarrow> list_ex (\<lambda>r. token r = tok') (tokens (snd acc)) \<Longrightarrow>
            generate_loop g em ord cfg expAt now i (d # ds) acc =
              generate_loop g em ord cfg expAt now (Suc i) ds acc"
    by (simp add: generate_iteration_collision)
  have "generate_iteration g em ord (finalConfig c)
          (expiry (grt g) (finalConfig c) now) now 0 d ([], s) = ([], s)"
    using assms by (intro generate_iteration_collision) simp_all
  then have "generateSecureDownloadTokens g [d] em ord c now s = ([], s)"
    and "generateSecureDownloadTokens g (d # ds) em ord c now s =
           generate_loop g em ord (finalConfig c) (expiry (grt g) (finalConfig c) now) now
             (Suc 0) ds ([], s)"
    by (simp_all add: generateSecureDownloadTokens_def Let_def)
  moreover have "\<exists>new. tokens (snd (generateSecureDownloadTokens g' docs em' ord' c' now' s')) =
                  tokens s' @ new"
    using generate_appends [of g' docs em' ord' c' now' s'] by blast
  ultimately show ?thesis using step by simp
qed

lemma colliding_first: "rpc_out colliding_genv 0 = RpcData ''tok-1''"
  by (simp add: colliding_genv_def)

theorem collision_skips_document_witness:
  "rpc_out colliding_genv 0 = RpcData ''tok-1'' \<and>
   list_ex (\<lambda>r. token r = ''tok-1'') (tokens store1) \<and>
   generateSecureDownloadTokens colliding_genv [doc1] ''a@b.com'' ''order-1'' no_config 600 store1 =
     ([], store1) \<and>
   map documentId
     (fst (generateSecureDownloadTokens colliding_genv [doc1, doc2] ''a@b.com'' ''order-1''
             no_config 600 store1)) = [''doc-2''] \<and>
   list_ex (\<lambda>r. token r = ''tok-1'') (tokens (snd ([], store1))) \<and>
   generate_loop colliding_genv ''a@b.com'' ''order-1'' (finalConfig no_config) (Some 700) 600 0
     [doc1, doc2] ([], store1) =
   generate_loop colliding_genv ''a@b.com'' ''order-1'' (finalConfig no_config) (Some 700) 600
     (Suc 0) [doc2] ([], store1)"
proof -
  have h3: "list_ex (\<lambda>r. token r = ''tok-1'') (tokens (snd ([], store1)))"
    by (simp add: store1_def grant1_def)
  have h1: "rpc_out colliding_genv 0 = RpcData ''tok-1''" by (rule colliding_first)
  have h2: "list_ex (\<lambda>r. token r = ''tok-1'') (tokens store1)"
    by (simp add: store1_def grant1_def)
  have l: "map documentId (fst (generate_loop colliding_genv ''a@b.com'' ''order-1''
             (finalConfig no_config) (expiry (grt colliding_genv) (finalConfig no_config) 600)
             600 (Suc 0) [doc2] ([], store1))) = [''doc-2'']"
    by code_simp
  show ?thesis
    using collision_skips_document [OF h1 h2, where d = doc1 and em = "''a@b.com''"
        and ord = "''order-1''" and c = no_config and now = 600 and ds = "[doc2]" and i = 0
        and tok' = "''tok-1''" and acc = "([], store1)" and cfg = "finalConfig no_config"
        and expAt = "Some 700"] h1 h2 h3 l
    by simp
qed

text \<open>
  C8 as stated fails: the generated token repeats the one of \<^const>\<open>grant1\<close>, a further
  call of the token procedure would have returned an unused token, and the issuance
  returns an empty list with the store unchanged, with no retry and no error.
\<close>

theorem collision_is_swallowed:
  "rpc_out colliding_genv 0 = RpcData (token grant1) \<and>
   rpc_out colliding_genv 1 = RpcData ''tok-2'' \<and>
   generateSecureDownloadTokens colliding_genv [doc1] ''a@b.com'' ''order-1'' no_config 600 store1 =
     ([], store1)"
  by code_simp

section \<open>The order of the checks\<close>

text \<open>
  C2, amended. A \<open>verifyDownloadToken\<close> call whose select succeeds and whose update does
  not throw evaluates its checks in the order resolution among active rows, expiry,
  identity, quota, and the first failing check alone gives the reported reason. On the
  multi-factor page, when the session select succeeds, the document select does not throw
  and the visitor submits a non-empty identity, the order is resolution, expiry, download
  window, and only then the identity match; again the first failing check alone is
  reported.
\<close>

theorem checks_in_code_order:
  "(sel_out e = Succeeds \<and> upd_out e \<noteq> Throws \<longrightarrow>
      reason (fst (verifyDownloadToken e t em ip ua now s)) =
        spec_order_reason (rt e) t em now s \<and>
      valid (fst (verifyDownloadToken e t em ip ua now s)) =
        (spec_order_reason (rt e) t em now s = None)) \<and>
   (em' \<noteq> [] \<and> docs_out \<noteq> Throws \<longrightarrow>
      page_error (mfa_visit r Succeeds docs_out sessions session_docs t' em' now' hour) =
        window_first_mfa r sessions t' em' now' hour)"
proof -
  have a: "sel_out e = Succeeds \<Longrightarrow> upd_out e \<noteq> Throws \<Longrightarrow>
      reason (fst (verifyDownloadToken e t em ip ua now s)) =
        spec_order_reason (rt e) t em now s \<and>
      valid (fst (verifyDownloadToken e t em ip ua now s)) =
        (spec_order_reason (rt e) t em now s = None)"
    by (cases "upd_out e")
       (auto simp: verifyDownloadToken_def verify_finish_def verify_catch_def
         verify_after_select_def select_single_def spec_order_reason_def await_update_def
         Let_def split: list.splits)
  have b: "em' \<noteq> [] \<Longrightarrow> docs_out \<noteq> Throws \<Longrightarrow>
      page_error (mfa_visit r Succeeds docs_out sessions session_docs t' em' now' hour) =
        window_first_mfa r sessions t' em' now' hour"
    by (cases docs_out)
       (auto simp: mfa_visit_def checkSession_def setEmail_def handleEmailVerification_def
         initial_page_def window_first_mfa_def Let_def split: list.splits)
  show ?thesis using a b by blast
qed

theorem checks_in_code_order_witness:
  "sel_out all_ok = Succeeds \<and> upd_out all_ok \<noteq> Throws \<and>
   reason (fst (verifyDownloadToken all_ok ''tok-1'' ''x@y.com'' None None 2000 store1)) =
     Some ''Download link has expired'' \<and>
   \<not> valid (fst (verifyDownloadToken all_ok ''tok-1'' ''x@y.com'' None None 2000 store1)) \<and>
   ''x@y.com'' \<noteq> [] \<and> Succeeds \<noteq> Throws \<and>
   page_error (mfa_visit example_runtime Succeeds Succeeds [session1] [] ''mfa-1'' ''x@y.com''
                 500 20) =
     Some (OnlyAllowedBetween 9 18)"
proof -
  have h1: "sel_out all_ok = Succeeds \<and> upd_out all_ok \<noteq> Throws" by (simp add: all_ok_def)
  have h2: "''x@y.com'' \<noteq> [] \<and> Succeeds \<noteq> Throws" by simp
  have s1: "spec_order_reason (rt all_ok) ''tok-1'' ''x@y.com'' 2000 store1 =
              Some ''Download link has expired''"
    by code_simp
  have s2: "window_first_mfa example_runtime [session1] ''mfa-1'' ''x@y.com'' 500 20 =
              Some (OnlyAllowedBetween 9 18)"
    by code_simp
  show ?thesis
    using h1 h2 s1 s2
      checks_in_code_order [where e = all_ok and t = "''tok-1''" and em = "''x@y.com''"
        and ip = None and ua = None and now = 2000 and s = store1 and em' = "''x@y.com''"
        and docs_out = Succeeds and r = example_runtime and sessions = "[session1]"
        and session_docs = "[]" and t' = "''mfa-1''" and now' = 500 and hour = 20]
    by simp
qed

text \<open>
  C2 as stated fails. On the multi-factor page, outside the download window and with a
  foreign identity, the page reports the window, where the specification's order
  (identity before the variant gates) gives the identity mismatch. And a
  \<open>verifyDownloadToken\<close> call on an expired grant whose update throws reports a system
  error, not the expiry that was the first failing check.
\<close>

theorem window_gate_precedes_identity:
  "page_error (mfa_visit example_runtime Succeeds Succeeds [session1] [] ''mfa-1'' ''x@y.com''
                 500 20) =
     Some (OnlyAllowedBetween 9 18) \<and>
   spec_order_mfa example_runtime [session1] ''mfa-1'' ''x@y.com'' 500 20 =
     Some EmailDoesNotMatch \<and>
   reason (fst (verifyDownloadToken update_throws ''tok-1'' ''a@b.com'' None None 2000 store1)) =
     Some ''System error occurred'' \<and>
   spec_order_reason (rt update_throws) ''tok-1'' ''a@b.com'' 2000 store1 =
     Some ''Download link has expired''"
  by code_simp

end
